theory Spec2Isabelle
  imports Complex_Main "HOL-Library.Word" "HOL-Library.Stream" "HOL-Library.Multiset"
    "HOL-Library.AList"
begin

unbundle bit_operations_syntax

section \<open>Pick the Round: the golf game of BetterSeason (src/golf/game.js)\<close>

text \<open>
  The development embeds the pure part of \<^verbatim>\<open>src/golf/game.js\<close>: the seeded
  generator \<^verbatim>\<open>mulberry32\<close>, the shuffle \<^verbatim>\<open>shuffleWithRng\<close>, the CSV reader
  \<^verbatim>\<open>parseCSV\<close>, the row filter of \<^verbatim>\<open>loadData\<close>, the puzzle builder
  \<^verbatim>\<open>buildPuzzle\<close> and the two presentation helpers \<^verbatim>\<open>formatScore\<close> and
  \<^verbatim>\<open>getScoreBackgroundColor\<close>.

  Conventions of the embedding.
  \<^item> A JavaScript number that holds an integer is an \<open>int\<close>; the embedding is exact
    while the integer is a safe integer (below \<open>2^53\<close> in magnitude).
  \<^item> A JavaScript string is a \<open>string\<close>; one \<open>char\<close> stands for one UTF-16 code
    unit below 256, so the texts covered are the Latin-1 ones.
  \<^item> \<^verbatim>\<open>undefined\<close> is \<open>None\<close>.
  \<^item> A thrown exception is the left summand of a sum type.
\<close>

subsection \<open>Module constants\<close>

definition GOLFERS_PER_GAME :: nat where
  "GOLFERS_PER_GAME = 4"

definition CARDS_PER_GOLFER :: nat where
  "CARDS_PER_GOLFER = 4"

definition DATA_URL :: string where
  "DATA_URL = ''data/golf_results.csv''"

definition MIN_YEAR :: int where
  "MIN_YEAR = 2020"

definition MAX_YEAR :: int where
  "MAX_YEAR = 2025"

definition EXCLUDED_POSITIONS :: "string set" where
  "EXCLUDED_POSITIONS = {''cut'', ''wd'', ''dq'', ''mdf''}"

subsection \<open>Errors\<close>

text \<open>
  \<open>Error msg\<close> is \<^verbatim>\<open>throw new Error(msg)\<close>. \<open>TypeError\<close> is the exception the
  engine raises when the code destructures or reads a property of \<^verbatim>\<open>undefined\<close>.
\<close>

datatype error = Error string | TypeError

subsection \<open>JavaScript built-ins on strings and numbers\<close>

text \<open>The white space and line terminator code units below 256, which \<^verbatim>\<open>trim\<close> and
  \<^verbatim>\<open>parseInt\<close> strip: TAB, LF, VT, FF, CR, SPACE and NBSP.\<close>

definition isWhiteSpace :: "char \<Rightarrow> bool" where
  "isWhiteSpace c \<longleftrightarrow>
     c \<in> set [CHR 0x09, CHR 0x0A, CHR 0x0B, CHR 0x0C, CHR 0x0D, CHR 0x20, CHR 0xA0]"

definition trim :: "string \<Rightarrow> string" where
  "trim s = rev (dropWhile isWhiteSpace (rev (dropWhile isWhiteSpace s)))"

text \<open>\<^verbatim>\<open>toLowerCase\<close> on Latin-1: A to Z, and the letters from 0xC0 to 0xDE
  (0xD7, the multiplication sign, is no letter), move up by 0x20.\<close>

definition lowerChar :: "char \<Rightarrow> char" where
  "lowerChar c =
     (let n = (of_char c :: nat)
      in if (65 \<le> n \<and> n \<le> 90) \<or> (192 \<le> n \<and> n \<le> 222 \<and> n \<noteq> 215)
         then char_of (n + 32) else c)"

definition toLowerCase :: "string \<Rightarrow> string" where
  "toLowerCase s = map lowerChar s"

definition isDigit :: "char \<Rightarrow> bool" where
  "isDigit c \<longleftrightarrow> c \<in> set ''0123456789''"

definition digitChar :: "nat \<Rightarrow> char" where
  "digitChar d = ''0123456789'' ! d"

definition digitValue :: "char \<Rightarrow> nat" where
  "digitValue c = of_char c - 48"

text \<open>\<^verbatim>\<open>String(n)\<close> for an integer \<open>n\<close> (decimal, below \<open>10^21\<close> in magnitude, where
  JavaScript switches to exponent notation).\<close>

fun natToString :: "nat \<Rightarrow> string" where
  "natToString n =
     (if n < 10 then [digitChar n] else natToString (n div 10) @ [digitChar (n mod 10)])"

declare natToString.simps [simp del]

definition jsString :: "int \<Rightarrow> string" where
  "jsString n = (if n < 0 then CHR ''-'' # natToString (nat (- n)) else natToString (nat n))"

definition digitsToNat :: "string \<Rightarrow> nat" where
  "digitsToNat ds = foldl (\<lambda>a c. 10 * a + digitValue c) 0 ds"

text \<open>\<^verbatim>\<open>parseInt(s, 10)\<close>: leading white space is skipped, one sign is read, then the
  longest run of decimal digits; \<open>None\<close> is \<^verbatim>\<open>NaN\<close> (no digit).\<close>

definition parseInt :: "string \<Rightarrow> int option" where
  "parseInt s =
     (let t = dropWhile isWhiteSpace s;
          sgn = (if t \<noteq> [] \<and> hd t = CHR ''-'' then - 1 else (1 :: int));
          u = (if t \<noteq> [] \<and> (hd t = CHR ''-'' \<or> hd t = CHR ''+'') then tl t else t);
          z = takeWhile isDigit u
      in if z = [] then None else Some (sgn * int (digitsToNat z)))"

text \<open>\<^verbatim>\<open>parseInt(v, 10)\<close> on a property that may be missing: \<^verbatim>\<open>undefined\<close> is first
  turned into the string \<^verbatim>\<open>"undefined"\<close>.\<close>

definition parseIntProp :: "string option \<Rightarrow> int option" where
  "parseIntProp v = parseInt (case v of None \<Rightarrow> ''undefined'' | Some s \<Rightarrow> s)"

text \<open>\<^verbatim>\<open>s.split(sep)\<close> for a one-character separator.\<close>

fun splitOn :: "char \<Rightarrow> string \<Rightarrow> string list" where
  "splitOn sep [] = [[]]"
| "splitOn sep (c # cs) =
     (if c = sep then [] # splitOn sep cs
      else (case splitOn sep cs of [] \<Rightarrow> [[c]] | l # ls \<Rightarrow> (c # l) # ls))"

text \<open>\<^verbatim>\<open>s.split(/\r?\n/)\<close>: a line ends at LF or at CR LF; a CR alone ends nothing.\<close>

fun splitLines :: "string \<Rightarrow> string list" where
  "splitLines [] = [[]]"
| "splitLines [c] = (if c = CHR 0x0A then [[], []] else [[c]])"
| "splitLines (c # d # cs) =
     (if c = CHR 0x0D \<and> d = CHR 0x0A then [] # splitLines cs
      else if c = CHR 0x0A then [] # splitLines (d # cs)
      else (case splitLines (d # cs) of [] \<Rightarrow> [[c]] | l # ls \<Rightarrow> (c # l) # ls))"

subsection \<open>The seeded generator \<^verbatim>\<open>mulberry32\<close>\<close>

text \<open>
  One call of the closure that \<^verbatim>\<open>mulberry32(seed)\<close> returns, on the value of its captured
  variable \<^verbatim>\<open>seed\<close>: the result and the new value of \<^verbatim>\<open>seed\<close>.
  \<^verbatim>\<open>seed += 0x6d2b79f5\<close> is an addition of numbers (it does not wrap); the bitwise
  operators and \<^verbatim>\<open>Math.imul\<close> work on the low 32 bits (\<open>word_of_int\<close>), and
  \<^verbatim>\<open>>>> 0\<close> reads the 32 bits unsigned. The division of an unsigned 32-bit value by
  \<open>2^32\<close> is exact in double precision, so the result is that rational number.
\<close>

definition mulberry32_call :: "int \<Rightarrow> real \<times> int" where
  "mulberry32_call seed =
     (let seed1 = seed + 0x6d2b79f5;
          t0 = (word_of_int seed1 :: 32 word);
          t1 = (t0 XOR drop_bit 15 t0) * (t0 OR 1);
          t2 = t1 XOR (t1 + (t1 XOR drop_bit 7 t1) * (t1 OR 61))
      in (real (unat (t2 XOR drop_bit 14 t2)) / 4294967296, seed1))"

text \<open>The generator as the stream of the values its successive calls return.\<close>

primcorec mulberry32 :: "int \<Rightarrow> real stream" where
  "mulberry32 seed =
     SCons (fst (mulberry32_call seed)) (mulberry32 (snd (mulberry32_call seed)))"

subsection \<open>Arrays and \<^verbatim>\<open>shuffleWithRng\<close>\<close>

text \<open>
  A JavaScript array of defined values, while the shuffle works on it: its elements
  (\<open>None\<close> is \<^verbatim>\<open>undefined\<close> or a hole) and its properties at keys that are no index
  of the array (a negative key, or one from \<open>2^32 - 1\<close> on).
  Reading outside the array gives \<^verbatim>\<open>undefined\<close>; writing at an index past the end
  extends the array; writing at any other key sets a property and leaves the elements.
\<close>

type_synonym 'a jsarray = "'a option list \<times> (int \<Rightarrow> 'a option)"

definition arrayOf :: "'a list \<Rightarrow> 'a jsarray" where
  "arrayOf arr = (map Some arr, \<lambda>k. None)"

definition arrayGet :: "'a jsarray \<Rightarrow> int \<Rightarrow> 'a option" where
  "arrayGet out j =
     (if 0 \<le> j \<and> nat j < length (fst out) then fst out ! nat j else snd out j)"

definition arraySet :: "'a jsarray \<Rightarrow> int \<Rightarrow> 'a option \<Rightarrow> 'a jsarray" where
  "arraySet out j v =
     (if 0 \<le> j \<and> nat j < length (fst out) then ((fst out)[nat j := v], snd out)
      else if 0 \<le> j \<and> j < 4294967295
        then (fst out @ replicate (nat j - length (fst out)) None @ [v], snd out)
      else (fst out, (snd out)(j := v)))"

text \<open>
  The loop \<^verbatim>\<open>for (let i = out.length - 1; i > 0; i--)\<close>, started at index \<open>i\<close>, with
  the generator as the stream of its coming draws. \<^verbatim>\<open>Math.floor(rng() * (i + 1))\<close> is
  taken over the reals: the product of a \<open>mulberry32\<close> draw and \<open>i + 1\<close> is exact in
  double precision for arrays of fewer than \<open>2^21\<close> elements. The destructuring
  assignment reads \<^verbatim>\<open>out[j]\<close> and \<^verbatim>\<open>out[i]\<close>, then writes \<^verbatim>\<open>out[i]\<close>, then
  \<^verbatim>\<open>out[j]\<close>.
\<close>

fun shuffleLoop :: "nat \<Rightarrow> 'a jsarray \<Rightarrow> real stream \<Rightarrow> 'a jsarray \<times> real stream" where
  "shuffleLoop 0 out rng = (out, rng)"
| "shuffleLoop (Suc k) out rng =
     (let i = int (Suc k);
          j = \<lfloor>shd rng * (of_int i + 1)\<rfloor>;
          oj = arrayGet out j;
          oi = arrayGet out i
      in shuffleLoop k (arraySet (arraySet out i oj) j oi) (stl rng))"

text \<open>\<^verbatim>\<open>shuffleWithRng(arr, rng)\<close>: the elements of the returned array, and the generator
  after the call.\<close>

definition shuffleWithRng :: "'a list \<Rightarrow> real stream \<Rightarrow> 'a option list \<times> real stream" where
  "shuffleWithRng arr rng =
     (let out = arrayOf arr;
          (out', rng') = shuffleLoop (length arr - 1) out rng
      in (fst out', rng'))"

text \<open>
  The same function on a store of arrays, where the mutation shows: an array reference is
  an address, the position of the array in the store. \<^verbatim>\<open>[...arr]\<close> allocates a new array
  at the end of the store, with the elements of \<open>arr\<close> and no other property, and the loop
  writes to the array at the address \<open>out\<close>.
\<close>

type_synonym 'a heap = "'a jsarray list"

definition spread :: "'a jsarray \<Rightarrow> 'a jsarray" where
  "spread a = (fst a, \<lambda>k. None)"

fun shuffleLoopRef ::
  "nat \<Rightarrow> nat \<Rightarrow> 'a heap \<Rightarrow> real stream \<Rightarrow> 'a heap \<times> real stream" where
  "shuffleLoopRef 0 out h rng = (h, rng)"
| "shuffleLoopRef (Suc k) out h rng =
     (let i = int (Suc k);
          j = \<lfloor>shd rng * (of_int i + 1)\<rfloor>;
          oj = arrayGet (h ! out) j;
          oi = arrayGet (h ! out) i;
          h1 = h[out := arraySet (h ! out) i oj];
          h2 = h1[out := arraySet (h1 ! out) j oi]
      in shuffleLoopRef k out h2 (stl rng))"

text \<open>\<^verbatim>\<open>shuffleWithRng(arr, rng)\<close> on the store \<open>h\<close>, for the reference \<open>arr\<close>: the
  reference returned, the generator after the call, and the store after the call.\<close>

definition shuffleWithRngRef ::
  "'a heap \<Rightarrow> nat \<Rightarrow> real stream \<Rightarrow> nat \<times> real stream \<times> 'a heap" where
  "shuffleWithRngRef h arr rng =
     (let out = length h;
          h1 = h @ [spread (h ! arr)];
          (h2, rng') = shuffleLoopRef (length (fst (h1 ! out)) - 1) out h1 rng
      in (out, rng', h2))"

subsection \<open>\<^verbatim>\<open>parseCSV\<close>\<close>

text \<open>
  A row object: its own string-valued properties. \<^verbatim>\<open>row[h] = v\<close> creates or overwrites
  the property \<open>h\<close>, except for the key \<^verbatim>\<open>__proto__\<close>: that assignment reaches the
  setter of \<^verbatim>\<open>Object.prototype\<close>, which ignores a string and creates no property.
\<close>

type_synonym row = "string \<rightharpoonup> string"

definition setProp :: "row \<Rightarrow> string \<Rightarrow> string \<Rightarrow> row" where
  "setProp r h v = (if h = ''__proto__'' then r else r(h \<mapsto> v))"

text \<open>\<^verbatim>\<open>vals[j] ?? ''\<close>: the field at position \<open>j\<close>, or the empty string when the
  line has no such position.\<close>

definition valAt :: "string list \<Rightarrow> nat \<Rightarrow> string" where
  "valAt vals j = (if j < length vals then vals ! j else '''')"

text \<open>\<^verbatim>\<open>headers.forEach((h, j) => (row[h] = vals[j] ?? ''))\<close> on the empty object.\<close>

definition makeRow :: "string list \<Rightarrow> string list \<Rightarrow> row" where
  "makeRow headers vals =
     fold (\<lambda>j r. setProp r (headers ! j) (valAt vals j)) [0..<length headers] Map.empty"

definition parseCSV :: "string \<Rightarrow> row list" where
  "parseCSV txt =
     (let lines = splitLines (trim txt)
      in if length lines < 2 then []
         else let headers = map trim (splitOn (CHR '','') (lines ! 0))
              in map (\<lambda>i. let vals = map trim (splitOn (CHR '','') (lines ! i))
                           in makeRow headers vals)
                   [1..<length lines])"

subsection \<open>Records, cards and puzzles\<close>

datatype ResultRecord =
  ResultRecord (player_name: string) (event_name: string) (year: int) (score_to_par: int)

datatype Card = Card (event_name: string) (year: int) (score_to_par: int)

datatype PlayerEntry = PlayerEntry (player_name: string) (cards: "Card list")

type_synonym Puzzle = "PlayerEntry list"

subsection \<open>The filter of \<^verbatim>\<open>loadData\<close>\<close>

text \<open>\<^verbatim>\<open>(v || '')\<close> on a property that is a string or missing.\<close>

definition orEmpty :: "string option \<Rightarrow> string" where
  "orEmpty v = (case v of None \<Rightarrow> '''' | Some s \<Rightarrow> s)"

text \<open>\<^verbatim>\<open>(x || 0)\<close> on the result of \<^verbatim>\<open>parseInt\<close>: \<^verbatim>\<open>NaN\<close> and 0 give 0.\<close>

definition orZero :: "int option \<Rightarrow> int" where
  "orZero x = (case x of None \<Rightarrow> 0 | Some n \<Rightarrow> n)"

text \<open>
  The last \<^verbatim>\<open>then\<close> callback of \<^verbatim>\<open>loadData\<close>, on the rows that \<^verbatim>\<open>parseCSV\<close> returned:
  two filters, the \<^verbatim>\<open>map\<close> (whose \<^verbatim>\<open>score_to_par\<close> may still be \<^verbatim>\<open>NaN\<close>, here
  \<open>None\<close>), and two more filters. After the third filter every score is a number.
\<close>

definition loadData_rows :: "row list \<Rightarrow> ResultRecord list" where
  "loadData_rows rows =
     (let r1 = filter (\<lambda>r. r ''score_to_par'' \<noteq> Some '''' \<and> r ''score_to_par'' \<noteq> None) rows;
          r2 = filter (\<lambda>r. let pos = toLowerCase (trim (orEmpty (r ''position'')))
                          in pos \<notin> EXCLUDED_POSITIONS) r1;
          r3 = map (\<lambda>r. (trim (orEmpty (r ''player_name'')),
                          trim (orEmpty (r ''event_name'')),
                          orZero (parseIntProp (r ''year'')),
                          parseIntProp (r ''score_to_par''))) r2;
          r4 = filter (\<lambda>(p, e, y, s). p \<noteq> '''' \<and> s \<noteq> None) r3;
          r5 = filter (\<lambda>(p, e, y, s). y \<ge> MIN_YEAR \<and> y \<le> MAX_YEAR) r4
      in List.map_filter
           (\<lambda>(p, e, y, s). case s of None \<Rightarrow> None | Some n \<Rightarrow> Some (ResultRecord p e y n)) r5)"

text \<open>The response of \<^verbatim>\<open>fetch(DATA_URL)\<close>, as far as \<^verbatim>\<open>loadData\<close> reads it.\<close>

datatype response = Response (ok: bool) (status: int) (body: string)

definition loadData :: "response \<Rightarrow> error + ResultRecord list" where
  "loadData r =
     (if \<not> ok r then Inl (Error (''Failed to load '' @ DATA_URL @ '': '' @ jsString (status r)))
      else Inr (loadData_rows (parseCSV (body r))))"

subsection \<open>\<^verbatim>\<open>buildPuzzle\<close>\<close>

text \<open>
  The \<^verbatim>\<open>Map\<close> \<^verbatim>\<open>byPlayer\<close> is the list of its entries in insertion order, which is the
  order \<^verbatim>\<open>byPlayer.entries()\<close> yields. \<^verbatim>\<open>set\<close> of a new key appends an entry
  (\<open>AList.update\<close>), and \<^verbatim>\<open>byPlayer.get(k).push(r)\<close> extends the bucket of \<open>k\<close> in place
  (\<open>AList.map_entry\<close>).
\<close>

type_synonym playerMap = "(string \<times> ResultRecord list) list"

fun groupRows :: "playerMap \<Rightarrow> ResultRecord list \<Rightarrow> playerMap" where
  "groupRows byPlayer [] = byPlayer"
| "groupRows byPlayer (r # rows) =
     (let k = ResultRecord.player_name r;
          byPlayer1 = (if map_of byPlayer k = None then AList.update k [] byPlayer else byPlayer);
          byPlayer2 = AList.map_entry k (\<lambda>events. events @ [r]) byPlayer1
      in groupRows byPlayer2 rows)"

text \<open>\<^verbatim>\<open>picked.map((e) => ({event_name: ..., year: ..., score_to_par: ...}))\<close>.\<close>

fun toCards :: "ResultRecord option list \<Rightarrow> error + Card list" where
  "toCards [] = Inr []"
| "toCards (None # es) = Inl TypeError"
| "toCards (Some e # es) =
     (case toCards es of
        Inl err \<Rightarrow> Inl err
      | Inr cs \<Rightarrow>
          Inr (Card (ResultRecord.event_name e) (ResultRecord.year e)
                 (ResultRecord.score_to_par e) # cs))"

text \<open>\<^verbatim>\<open>selected.map(([player, events]) => ...)\<close>: the callback runs on the entries in
  order, and each run draws from the one generator.\<close>

fun buildEntries ::
  "(string \<times> ResultRecord list) option list \<Rightarrow> real stream \<Rightarrow> error + Puzzle" where
  "buildEntries [] rng = Inr []"
| "buildEntries (None # rest) rng = Inl TypeError"
| "buildEntries (Some (player, events) # rest) rng =
     (let (sh, rng1) = shuffleWithRng events rng;
          picked = take CARDS_PER_GOLFER sh
      in case toCards picked of
           Inl err \<Rightarrow> Inl err
         | Inr cs \<Rightarrow>
             (case buildEntries rest rng1 of
                Inl err \<Rightarrow> Inl err
              | Inr es \<Rightarrow> Inr (PlayerEntry player cs # es)))"

definition buildPuzzle :: "ResultRecord list \<Rightarrow> int \<Rightarrow> error + Puzzle" where
  "buildPuzzle rows seed =
     (let rng = mulberry32 seed;
          byPlayer = groupRows [] rows;
          playersWithEnough =
            filter (\<lambda>(player, events). length events \<ge> CARDS_PER_GOLFER) byPlayer
      in if length playersWithEnough < GOLFERS_PER_GAME
         then Inl (Error (''Need at least '' @ jsString (int GOLFERS_PER_GAME)
                @ '' golfers with '' @ jsString (int CARDS_PER_GOLFER)
                @ ''+ events. Found '' @ jsString (int (length playersWithEnough)) @ ''.''))
         else let (shuffled, rng1) = shuffleWithRng playersWithEnough rng;
                  selected = take GOLFERS_PER_GAME shuffled
              in buildEntries selected rng1)"

subsection \<open>Presentation helpers\<close>


definition greenShades :: "string list" where
  "greenShades = [''hsl(152, 42%, 52%)'', ''hsl(152, 38%, 58%)'', ''hsl(152, 35%, 64%)'']"

definition yellowShades :: "string list" where
  "yellowShades = [''hsl(48, 52%, 62%)'', ''hsl(48, 48%, 68%)'', ''hsl(48, 44%, 74%)'']"

definition redShades :: "string list" where
  "redShades = [''hsl(0, 48%, 58%)'', ''hsl(0, 52%, 54%)'', ''hsl(0, 55%, 50%)'']"

definition getScoreBackgroundColor :: "int \<Rightarrow> string" where
  "getScoreBackgroundColor scoreToPar =
     (if scoreToPar \<le> - 10 then greenShades ! 0
      else if scoreToPar \<le> - 4 then greenShades ! 1
      else if scoreToPar \<le> - 1 then greenShades ! 2
      else if scoreToPar \<le> 0 then yellowShades ! 0
      else if scoreToPar \<le> 2 then yellowShades ! 1
      else if scoreToPar \<le> 5 then yellowShades ! 2
      else if scoreToPar \<le> 9 then redShades ! 2
      else if scoreToPar \<le> 15 then redShades ! 1
      else redShades ! 0)"

subsection \<open>Notions of the specification\<close>


text \<open>The colour bands from cool to warm: green 0, yellow 1, red 2.\<close>

definition bandWarmth :: "string \<Rightarrow> nat" where
  "bandWarmth c = (if c \<in> set greenShades then 0 else if c \<in> set yellowShades then 1 else 2)"

text \<open>
  The Fisher-Yates shuffle as the specification words it: the working copy is walked from
  the last index down to index 1; step \<open>i\<close> takes one draw \<open>r\<close>, the swap index
  \<open>floor (r * (i + 1))\<close>, and exchanges the elements at the two positions.
\<close>

definition swapAt :: "'a list \<Rightarrow> nat \<Rightarrow> nat \<Rightarrow> 'a list" where
  "swapAt xs i j = xs[i := xs ! j, j := xs ! i]"

definition fisherYates :: "'a list \<Rightarrow> real list \<Rightarrow> 'a list" where
  "fisherYates xs draws =
     foldl (\<lambda>out (i, r). swapAt out i (nat \<lfloor>r * real (i + 1)\<rfloor>)) xs
       (zip (rev [1..<length xs]) draws)"

text \<open>
  What the specification says of one call of the shuffle on the sequence \<open>xs\<close> with the
  generator \<open>rng\<close>: the result is the Fisher-Yates walk over the first \<open>length xs - 1\<close>
  draws, a permutation of \<open>xs\<close>; the generator has advanced by exactly those draws; and
  on any store that holds the input, the call adds one new array, returns its reference,
  and leaves every array that was there as it was.
\<close>

definition shufflesAsSpecified :: "'a list \<Rightarrow> real stream \<Rightarrow> bool" where
  "shufflesAsSpecified xs rng \<longleftrightarrow>
     fst (shuffleWithRng xs rng) = map Some (fisherYates xs (stake (length xs - 1) rng))
     \<and> mset (fisherYates xs (stake (length xs - 1) rng)) = mset xs
     \<and> snd (shuffleWithRng xs rng) = sdrop (length xs - 1) rng
     \<and> (\<forall>h arr. arr < length h \<and> fst (h ! arr) = map Some xs \<longrightarrow>
           shuffleWithRngRef h arr rng =
             (length h, sdrop (length xs - 1) rng,
              h @ [(map Some (fisherYates xs (stake (length xs - 1) rng)), \<lambda>k. None)]))"

text \<open>The records of one player, in input order, and the distinct players that have at
  least four records.\<close>

definition recordsOf :: "ResultRecord list \<Rightarrow> string \<Rightarrow> ResultRecord list" where
  "recordsOf rows p = filter (\<lambda>r. ResultRecord.player_name r = p) rows"

definition qualifyingPlayers :: "ResultRecord list \<Rightarrow> string list" where
  "qualifyingPlayers rows =
     filter (\<lambda>p. length (recordsOf rows p) \<ge> 4) (remdups (map ResultRecord.player_name rows))"

text \<open>The bucket of a key that may be missing from the map.\<close>

definition orNil :: "'a list option \<Rightarrow> 'a list" where
  "orNil v = (case v of None \<Rightarrow> [] | Some xs \<Rightarrow> xs)"

text \<open>The lines of a CSV text, its trimmed header names, and the trimmed fields of line
  \<open>i\<close> (line 0 is the header row).\<close>

definition csvLines :: "string \<Rightarrow> string list" where
  "csvLines txt = splitLines (trim txt)"

definition csvHeaders :: "string \<Rightarrow> string list" where
  "csvHeaders txt = map trim (splitOn (CHR '','') (csvLines txt ! 0))"

definition csvFields :: "string \<Rightarrow> nat \<Rightarrow> string list" where
  "csvFields txt i = map trim (splitOn (CHR '','') (csvLines txt ! i))"

text \<open>A record holds, for every position of the header row, the field at that position
  under the name at that position.\<close>

definition holdsFields :: "string list \<Rightarrow> string list \<Rightarrow> row \<Rightarrow> bool" where
  "holdsFields headers vals r \<longleftrightarrow>
     list_all (\<lambda>j. r (headers ! j) = Some (valAt vals j)) [0..<length headers]"







subsection \<open>A sample input\<close>

text \<open>Nineteen records: four players with four records each, and one with three.\<close>

definition exampleRows :: "ResultRecord list" where
  "exampleRows =
    [ResultRecord ''Woods'' ''Masters'' 2021 (- 3),
     ResultRecord ''Woods'' ''PGA'' 2022 2,
     ResultRecord ''Woods'' ''US Open'' 2023 (- 11),
     ResultRecord ''Woods'' ''Open'' 2024 0,
     ResultRecord ''Rahm'' ''Masters'' 2021 (- 7),
     ResultRecord ''Day'' ''Masters'' 2020 (- 2),
     ResultRecord ''Rahm'' ''PGA'' 2022 5,
     ResultRecord ''Rahm'' ''US Open'' 2023 1,
     ResultRecord ''Rahm'' ''Open'' 2024 (- 4),
     ResultRecord ''Day'' ''PGA'' 2021 6,
     ResultRecord ''Spieth'' ''Masters'' 2021 3,
     ResultRecord ''Spieth'' ''PGA'' 2022 (- 2),
     ResultRecord ''Spieth'' ''US Open'' 2023 (- 9),
     ResultRecord ''Spieth'' ''Open'' 2024 7,
     ResultRecord ''Koepka'' ''Masters'' 2021 (- 1),
     ResultRecord ''Koepka'' ''PGA'' 2022 (- 6),
     ResultRecord ''Koepka'' ''US Open'' 2023 4,
     ResultRecord ''Koepka'' ''Open'' 2024 (- 12),
     ResultRecord ''Day'' ''Open'' 2022 1]"

definition examplePuzzle :: Puzzle where
  "examplePuzzle =
    [PlayerEntry ''Woods''
       [Card ''Open'' 2024 0, Card ''PGA'' 2022 2, Card ''Masters'' 2021 (- 3),
        Card ''US Open'' 2023 (- 11)],
     PlayerEntry ''Koepka''
       [Card ''Masters'' 2021 (- 1), Card ''US Open'' 2023 4, Card ''Open'' 2024 (- 12),
        Card ''PGA'' 2022 (- 6)],
     PlayerEntry ''Rahm''
       [Card ''US Open'' 2023 1, Card ''Open'' 2024 (- 4), Card ''Masters'' 2021 (- 7),
        Card ''PGA'' 2022 5],
     PlayerEntry ''Spieth''
       [Card ''PGA'' 2022 (- 2), Card ''Open'' 2024 7, Card ''Masters'' 2021 3,
        Card ''US Open'' 2023 (- 9)]]"

text \<open>Three CSV texts: one with a repeated header name, one with a short line and an
  excluded position, one with an empty player name.\<close>

definition dupHeaderCsv :: string where
  "dupHeaderCsv = ''a,a'' @ [CHR 0x0A] @ ''1,2''"

definition sampleCsv :: string where
  "sampleCsv =
     ''player_name,event_name,year,score_to_par,position'' @ [CHR 0x0D, CHR 0x0A]
     @ ''Tiger Woods, Masters ,2021,-3,T5'' @ [CHR 0x0A]
     @ ''Jon Rahm,US Open,2023'' @ [CHR 0x0A]
     @ ''Jason Day,PGA,2022,+4,CUT'' @ [CHR 0x0A]"


section \<open>Properties\<close>

subsection \<open>Decimal numerals and \<^verbatim>\<open>formatScore\<close>\<close>

lemma small_digit_cases:
  "d < 10 \<Longrightarrow> d = 0 \<or> d = 1 \<or> d = 2 \<or> d = 3 \<or> d = 4 \<or> d = 5 \<or> d = 6 \<or> d = 7 \<or> d = 8 \<or> d = (9::nat)"
  by arith


lemma isDigit_digitChar: "d < 10 \<Longrightarrow> isDigit (digitChar d)"
  using small_digit_cases [of d] by (auto simp: isDigit_def digitChar_def)


lemma digitChar_not_sign: "d < 10 \<Longrightarrow> digitChar d \<noteq> CHR ''+'' \<and> digitChar d \<noteq> CHR ''-'' \<and> digitChar d \<noteq> CHR ''E''"
  using small_digit_cases [of d] by (auto simp: digitChar_def)


lemma natToString_nonempty: "natToString n \<noteq> []"
  by (subst natToString.simps) simp

lemma natToString_digits: "list_all isDigit (natToString n)"
proof (induction n rule: natToString.induct)
  case (1 n)
  show ?case
  proof (cases "n < 10")
    case True
    then show ?thesis by (subst natToString.simps) (simp add: isDigit_digitChar)
  next
    case False
    with 1 show ?thesis by (subst natToString.simps) (simp add: isDigit_digitChar)
  qed
qed



lemma hd_natToString_not_sign:
  "hd (natToString n) \<noteq> CHR ''+'' \<and> hd (natToString n) \<noteq> CHR ''-'' \<and> hd (natToString n) \<noteq> CHR ''E''"
proof -
  have "isDigit (hd (natToString n))"
    using natToString_digits [of n] natToString_nonempty [of n]
    by (cases "natToString n") simp_all
  then show ?thesis by (auto simp: isDigit_def)
qed



lemma natToString_not_sign_cons:
  "natToString n \<noteq> CHR ''+'' # ds" "natToString n \<noteq> CHR ''-'' # ds" "natToString n \<noteq> ''E''"
  using hd_natToString_not_sign [of n] by auto



subsection \<open>\<^verbatim>\<open>getScoreBackgroundColor\<close>\<close>

text \<open>
  Claim C8. The colour is a total function of the score alone. For every integer score it
  is one of nine fixed, pairwise different strings; every score up to -1 gets a green
  shade, every score from 0 to 5 a yellow shade, every score from 6 on a red shade; and
  a lower score never gets a warmer band than a higher one.
\<close>

theorem getScoreBackgroundColor_bands:
  "getScoreBackgroundColor s \<in> set (greenShades @ yellowShades @ redShades)
   \<and> distinct (greenShades @ yellowShades @ redShades)
   \<and> length (greenShades @ yellowShades @ redShades) = 9
   \<and> (g \<le> - 1 \<longrightarrow> getScoreBackgroundColor g \<in> set greenShades)
   \<and> (0 \<le> y \<and> y \<le> 5 \<longrightarrow> getScoreBackgroundColor y \<in> set yellowShades)
   \<and> (6 \<le> r \<longrightarrow> getScoreBackgroundColor r \<in> set redShades)
   \<and> (a \<le> b \<longrightarrow>
        bandWarmth (getScoreBackgroundColor a) \<le> bandWarmth (getScoreBackgroundColor b))"
  by (simp add: getScoreBackgroundColor_def greenShades_def yellowShades_def redShades_def
      bandWarmth_def)

theorem getScoreBackgroundColor_bands_witness:
  "getScoreBackgroundColor (- 5) \<in> set greenShades
   \<and> getScoreBackgroundColor 3 \<in> set yellowShades
   \<and> getScoreBackgroundColor 12 \<in> set redShades
   \<and> bandWarmth (getScoreBackgroundColor (- 5)) \<le> bandWarmth (getScoreBackgroundColor 12)"
  using getScoreBackgroundColor_bands [of 0 "- 5" 3 12 "- 5" 12]
  by simp

subsection \<open>\<^verbatim>\<open>mulberry32\<close>\<close>

lemma mulberry32_call_word:
  "\<exists>w :: 32 word. fst (mulberry32_call seed) = real (unat w) / 2 ^ 32"
  by (auto simp: mulberry32_call_def Let_def)

lemma mulberry32_call_range:
  "0 \<le> fst (mulberry32_call seed) \<and> fst (mulberry32_call seed) < 1"
proof -
  obtain w :: "32 word" where w: "fst (mulberry32_call seed) = real (unat w) / 2 ^ 32"
    using mulberry32_call_word by blast
  define x where "x = real (unat w)"
  have "unat w < 2 ^ LENGTH(32)"
    by (rule unsigned_less)
  then have "real (unat w) < real (2 ^ LENGTH(32))"
    by (simp only: of_nat_less_iff)
  then have "x < 2 ^ 32"
    unfolding x_def by simp
  moreover have "0 \<le> x"
    unfolding x_def by (rule of_nat_0_le_iff)
  ultimately have "0 \<le> x / 2 ^ 32 \<and> x / 2 ^ 32 < 1"
    by simp
  then show ?thesis unfolding w x_def .
qed

lemma mulberry32_call_state: "snd (mulberry32_call seed) = seed + 0x6d2b79f5"
  by (simp add: mulberry32_call_def Let_def)

lemma sdrop_mulberry32: "sdrop n (mulberry32 seed) = mulberry32 (seed + int n * 0x6d2b79f5)"
proof (induction n arbitrary: seed)
  case 0
  show ?case by simp
next
  case (Suc n)
  have "sdrop (Suc n) (mulberry32 seed) = sdrop n (mulberry32 (seed + 0x6d2b79f5))"
    by (simp add: mulberry32_call_state)
  also have "\<dots> = mulberry32 (seed + 0x6d2b79f5 + int n * 0x6d2b79f5)"
    by (rule Suc.IH)
  finally show ?case by (simp add: algebra_simps)
qed

lemma snth_mulberry32:
  "mulberry32 seed !! n = fst (mulberry32_call (seed + int n * 0x6d2b79f5))"
proof -
  have "mulberry32 seed !! n = shd (sdrop n (mulberry32 seed))"
    by (simp add: sdrop_snth [of n _ 0, simplified])
  then show ?thesis by (simp add: sdrop_mulberry32)
qed


lemma sset_mulberry32: "x \<in> sset (mulberry32 seed) \<Longrightarrow> 0 \<le> x \<and> x < 1"
  using mulberry32_call_range by (auto simp: sset_range snth_mulberry32)

lemma set_stake_sset: "set (stake n s) \<subseteq> sset s"
proof (induction n arbitrary: s)
  case 0
  show ?case by simp
next
  case (Suc n)
  have "set (stake n (stl s)) \<subseteq> sset (stl s)" by (rule Suc.IH)
  also have "\<dots> \<subseteq> sset s" by (metis stl_sset subsetI)
  finally show ?case by (simp add: shd_sset)
qed

lemma sset_sdrop_subset: "sset (sdrop n s) \<subseteq> sset s"
proof (induction n arbitrary: s)
  case 0
  show ?case by simp
next
  case (Suc n)
  have "sset (sdrop n (stl s)) \<subseteq> sset (stl s)" by (rule Suc.IH)
  also have "\<dots> \<subseteq> sset s" by (metis stl_sset subsetI)
  finally show ?case by simp
qed

subsection \<open>\<^verbatim>\<open>shuffleWithRng\<close>\<close>

lemma floor_draw_range:
  assumes "0 \<le> r" "r < 1"
  shows "0 \<le> \<lfloor>r * (real k + 1)\<rfloor>" "nat \<lfloor>r * (real k + 1)\<rfloor> \<le> k"
proof -
  show "0 \<le> \<lfloor>r * (real k + 1)\<rfloor>" using assms by simp
  have "r * (real k + 1) < real k + 1" using assms by (simp add: mult_less_cancel_right1)
  then have "\<lfloor>r * (real k + 1)\<rfloor> \<le> int k" by (simp add: floor_le_iff)
  then show "nat \<lfloor>r * (real k + 1)\<rfloor> \<le> k" by (simp add: nat_le_iff)
qed

lemma swap_step:
  assumes "i < length ys" "0 \<le> j" "nat j < length ys"
  shows "arraySet (arraySet (map Some ys, ps) (int i) (arrayGet (map Some ys, ps) j)) j
           (arrayGet (map Some ys, ps) (int i))
         = (map Some (swapAt ys i (nat j)), ps)"
  using assms by (simp add: arraySet_def arrayGet_def swapAt_def map_update)

lemma length_swapAt [simp]: "length (swapAt ys i j) = length ys"
  by (simp add: swapAt_def)

lemma mset_swapAt: "i < length ys \<Longrightarrow> j < length ys \<Longrightarrow> mset (swapAt ys i j) = mset ys"
  unfolding swapAt_def by (rule mset_swap)

lemma rev_upt_Suc: "rev [1..<Suc (Suc k)] = Suc k # rev [1..<Suc k]"
  by simp

lemma shuffleLoop_spec:
  assumes "k < length ys" "\<forall>r \<in> set (stake k rng). 0 \<le> r \<and> r < 1"
  shows "shuffleLoop k (map Some ys, ps) rng
         = ((map Some (foldl (\<lambda>out (i, r). swapAt out i (nat \<lfloor>r * real (i + 1)\<rfloor>)) ys
                        (zip (rev [1..<Suc k]) (stake k rng))), ps),
            sdrop k rng)"
  using assms
proof (induction k arbitrary: ys rng)
  case 0
  show ?case by simp
next
  case (Suc k)
  let ?r = "shd rng"
  let ?j = "\<lfloor>?r * (real (Suc k) + 1)\<rfloor>"
  from Suc.prems have r: "0 \<le> ?r" "?r < 1" by simp_all
  have j: "0 \<le> ?j" "nat ?j \<le> Suc k"
    using floor_draw_range [OF r, of "Suc k"] by simp_all
  with Suc.prems have jl: "nat ?j < length ys" by simp
  have step: "arraySet (arraySet (map Some ys, ps) (int (Suc k)) (arrayGet (map Some ys, ps) ?j)) ?j
           (arrayGet (map Some ys, ps) (int (Suc k)))
         = (map Some (swapAt ys (Suc k) (nat ?j)), ps)"
    using Suc.prems(1) j(1) jl by (rule swap_step)
  have rest: "\<forall>r \<in> set (stake k (stl rng)). 0 \<le> r \<and> r < 1"
    using Suc.prems(2) by simp
  have kl: "k < length (swapAt ys (Suc k) (nat ?j))"
    using Suc.prems(1) by simp
  have "shuffleLoop (Suc k) (map Some ys, ps) rng
        = shuffleLoop k (map Some (swapAt ys (Suc k) (nat ?j)), ps) (stl rng)"
    using step by (simp add: Let_def add.commute)
  also note Suc.IH [OF kl rest]
  finally show ?case
    by (simp only: rev_upt_Suc stake.simps zip_Cons_Cons foldl_Cons sdrop.simps prod.case)
       (simp add: add.commute)
qed

lemma mset_fisherYates_aux:
  assumes "k < length ys" "\<forall>r \<in> set ds. 0 \<le> r \<and> r < 1"
  shows "mset (foldl (\<lambda>out (i, r). swapAt out i (nat \<lfloor>r * real (i + 1)\<rfloor>)) ys
                        (zip (rev [1..<Suc k]) ds)) = mset ys"
  using assms
proof (induction k arbitrary: ys ds)
  case 0
  show ?case by simp
next
  case (Suc k)
  show ?case
  proof (cases ds)
    case Nil
    then show ?thesis by simp
  next
    case (Cons r rs)
    with Suc.prems have r: "0 \<le> r" "r < 1" by simp_all
    have j: "nat \<lfloor>r * (real (Suc k) + 1)\<rfloor> \<le> Suc k"
      using floor_draw_range [OF r, of "Suc k"] by simp
    let ?ys = "swapAt ys (Suc k) (nat \<lfloor>r * real (Suc k + 1)\<rfloor>)"
    have m: "mset ?ys = mset ys"
      using j Suc.prems(1) by (intro mset_swapAt) (simp_all add: add.commute)
    have "mset (foldl (\<lambda>out (i, r). swapAt out i (nat \<lfloor>r * real (i + 1)\<rfloor>)) ?ys
                        (zip (rev [1..<Suc k]) rs)) = mset ?ys"
      using Suc.prems Cons by (intro Suc.IH) simp_all
    with m Cons show ?thesis
      by (simp only: rev_upt_Suc zip_Cons_Cons foldl_Cons prod.case)
  qed
qed

lemma shuffleLoop_arrayOf:
  assumes "\<forall>r \<in> set (stake (length xs - 1) rng). 0 \<le> r \<and> r < 1"
  shows "shuffleLoop (length xs - 1) (arrayOf xs) rng
         = ((map Some (fisherYates xs (stake (length xs - 1) rng)), \<lambda>k. None),
            sdrop (length xs - 1) rng)"
proof (cases xs)
  case Nil
  then show ?thesis by (simp add: arrayOf_def fisherYates_def)
next
  case (Cons x xs')
  then have k: "length xs - 1 < length xs" by simp
  have up: "Suc (length xs - 1) = length xs" using Cons by simp
  show ?thesis
    unfolding fisherYates_def arrayOf_def using shuffleLoop_spec [OF k assms] by (simp only: up)
qed

lemma shuffleWithRng_stake:
  assumes "\<forall>r \<in> set (stake (length xs - 1) rng). 0 \<le> r \<and> r < 1"
  shows "shuffleWithRng xs rng
         = (map Some (fisherYates xs (stake (length xs - 1) rng)), sdrop (length xs - 1) rng)"
    and "mset (fisherYates xs (stake (length xs - 1) rng)) = mset xs"
proof -
  show "shuffleWithRng xs rng
         = (map Some (fisherYates xs (stake (length xs - 1) rng)), sdrop (length xs - 1) rng)"
    using shuffleLoop_arrayOf [OF assms] by (simp add: shuffleWithRng_def)
  show "mset (fisherYates xs (stake (length xs - 1) rng)) = mset xs"
  proof (cases xs)
    case Nil
    then show ?thesis by (simp add: fisherYates_def)
  next
    case (Cons x xs')
    then have k: "length xs - 1 < length xs" by simp
    have up: "Suc (length xs - 1) = length xs" using Cons by simp
    show ?thesis
      unfolding fisherYates_def using mset_fisherYates_aux [OF k assms] by (simp only: up)
  qed
qed

text \<open>The function on the store writes to the new array only, and what it writes there is
  what the function on values computes.\<close>

lemma shuffleLoopRef_value:
  assumes "out < length h"
  shows "shuffleLoopRef k out h rng =
           (h[out := fst (shuffleLoop k (h ! out) rng)], snd (shuffleLoop k (h ! out) rng))"
  using assms
proof (induction k arbitrary: h rng)
  case 0
  show ?case by simp
next
  case (Suc k)
  let ?j = "\<lfloor>shd rng * (of_int (int (Suc k)) + 1)\<rfloor>"
  let ?a = "arraySet (arraySet (h ! out) (int (Suc k)) (arrayGet (h ! out) ?j)) ?j
              (arrayGet (h ! out) (int (Suc k)))"
  have l: "out < length (h[out := ?a])" using Suc.prems by simp
  have "shuffleLoopRef (Suc k) out h rng = shuffleLoopRef k out (h[out := ?a]) (stl rng)"
    using Suc.prems by (simp add: Let_def)
  also have "\<dots> = ((h[out := ?a])[out := fst (shuffleLoop k ((h[out := ?a]) ! out) (stl rng))],
                    snd (shuffleLoop k ((h[out := ?a]) ! out) (stl rng)))"
    by (rule Suc.IH [OF l])
  also have "\<dots> = (h[out := fst (shuffleLoop k ?a (stl rng))], snd (shuffleLoop k ?a (stl rng)))"
    using Suc.prems by simp
  also have "shuffleLoop k ?a (stl rng) = shuffleLoop (Suc k) (h ! out) rng"
    by (simp add: Let_def)
  finally show ?case .
qed

lemma shuffleWithRngRef_value:
  assumes "arr < length h" and "fst (h ! arr) = map Some xs"
  shows "shuffleWithRngRef h arr rng =
           (length h, snd (shuffleLoop (length xs - 1) (arrayOf xs) rng),
            h @ [fst (shuffleLoop (length xs - 1) (arrayOf xs) rng)])"
proof -
  let ?h1 = "h @ [spread (h ! arr)]"
  have sp: "spread (h ! arr) = arrayOf xs"
    using assms(2) by (simp add: spread_def arrayOf_def)
  have o: "length h < length ?h1" by simp
  have at: "?h1 ! length h = arrayOf xs" by (simp add: sp)
  have len: "length (fst (?h1 ! length h)) - 1 = length xs - 1"
    by (simp add: sp arrayOf_def)
  have "shuffleLoopRef (length xs - 1) (length h) ?h1 rng =
          (?h1[length h := fst (shuffleLoop (length xs - 1) (arrayOf xs) rng)],
           snd (shuffleLoop (length xs - 1) (arrayOf xs) rng))"
    using shuffleLoopRef_value [OF o, of "length xs - 1" rng] by (simp only: at)
  then show ?thesis
    unfolding shuffleWithRngRef_def Let_def len by simp
qed

text \<open>The first draws of the generator seeded with 42.\<close>

lemma mulberry32_42_1: "mulberry32 42 = 2581720956 / 4294967296 ## mulberry32 1831565855"
  by (rule stream.expand) (simp add: mulberry32_call_def Let_def)

lemma mulberry32_42_2: "mulberry32 1831565855 = 1925393290 / 4294967296 ## mulberry32 3663131668"
  by (rule stream.expand) (simp add: mulberry32_call_def Let_def)

lemma mulberry32_42_3: "mulberry32 3663131668 = 3661312704 / 4294967296 ## mulberry32 5494697481"
  by (rule stream.expand) (simp add: mulberry32_call_def Let_def)

lemma mulberry32_42_4: "mulberry32 5494697481 = 2876485805 / 4294967296 ## mulberry32 7326263294"
  by (rule stream.expand) (simp add: mulberry32_call_def Let_def)

lemma mulberry32_42_5: "mulberry32 7326263294 = 750819978 / 4294967296 ## mulberry32 9157829107"
  by (rule stream.expand) (simp add: mulberry32_call_def Let_def)

lemma mulberry32_42_6: "mulberry32 9157829107 = 2261697747 / 4294967296 ## mulberry32 10989394920"
  by (rule stream.expand) (simp add: mulberry32_call_def Let_def)

lemma mulberry32_42_7: "mulberry32 10989394920 = 1173505300 / 4294967296 ## mulberry32 12820960733"
  by (rule stream.expand) (simp add: mulberry32_call_def Let_def)

lemma mulberry32_42_8: "mulberry32 12820960733 = 2683257857 / 4294967296 ## mulberry32 14652526546"
  by (rule stream.expand) (simp add: mulberry32_call_def Let_def)

lemma mulberry32_42_9: "mulberry32 14652526546 = 3717185310 / 4294967296 ## mulberry32 16484092359"
  by (rule stream.expand) (simp add: mulberry32_call_def Let_def)

lemma mulberry32_42_10: "mulberry32 16484092359 = 2028586305 / 4294967296 ## mulberry32 18315658172"
  by (rule stream.expand) (simp add: mulberry32_call_def Let_def)

lemma mulberry32_42_11: "mulberry32 18315658172 = 1073414265 / 4294967296 ## mulberry32 20147223985"
  by (rule stream.expand) (simp add: mulberry32_call_def Let_def)

lemma mulberry32_42_12: "mulberry32 20147223985 = 3788413843 / 4294967296 ## mulberry32 21978789798"
  by (rule stream.expand) (simp add: mulberry32_call_def Let_def)

lemma mulberry32_42_13: "mulberry32 21978789798 = 3202918453 / 4294967296 ## mulberry32 23810355611"
  by (rule stream.expand) (simp add: mulberry32_call_def Let_def)

lemma mulberry32_42_14: "mulberry32 23810355611 = 1318561460 / 4294967296 ## mulberry32 25641921424"
  by (rule stream.expand) (simp add: mulberry32_call_def Let_def)

lemma mulberry32_42_15: "mulberry32 25641921424 = 847198783 / 4294967296 ## mulberry32 27473487237"
  by (rule stream.expand) (simp add: mulberry32_call_def Let_def)

lemmas mulberry32_42_draws =
  mulberry32_42_1 mulberry32_42_2 mulberry32_42_3 mulberry32_42_4 mulberry32_42_5 mulberry32_42_6 mulberry32_42_7 mulberry32_42_8
  mulberry32_42_9 mulberry32_42_10 mulberry32_42_11 mulberry32_42_12 mulberry32_42_13 mulberry32_42_14 mulberry32_42_15

text \<open>
  Claim C4. For every input sequence and every generator, \<^verbatim>\<open>shuffleWithRng\<close> returns a
  new sequence that is a permutation of the input (the same elements with the same
  multiplicities) and leaves the input as it was. It is the Fisher-Yates walk from the last
  index down to index 1, with one draw per step, the swap index \<open>floor (draw * (i + 1))\<close>
  and an exchange of the two positions. A generator is one whose draws lie in \<open>[0, 1)\<close>,
  as every generator that \<^verbatim>\<open>mulberry32\<close> makes does: the statement holds for every stream
  of such draws, and for the generator of every seed.
\<close>

theorem shuffleWithRng_permutation:
  "((\<forall>r \<in> set (stake (length xs - 1) rng). 0 \<le> r \<and> r < 1) \<longrightarrow> shufflesAsSpecified xs rng)
   \<and> shufflesAsSpecified xs (mulberry32 seed)"
proof -
  have general: "shufflesAsSpecified ys g"
    if unit: "\<forall>r \<in> set (stake (length ys - 1) g). 0 \<le> r \<and> r < 1"
    for ys :: "'a list" and g
    unfolding shufflesAsSpecified_def
  proof (intro conjI allI impI)
    show "fst (shuffleWithRng ys g) = map Some (fisherYates ys (stake (length ys - 1) g))"
      using shuffleWithRng_stake(1) [OF unit] by simp
    show "mset (fisherYates ys (stake (length ys - 1) g)) = mset ys"
      by (rule shuffleWithRng_stake(2) [OF unit])
    show "snd (shuffleWithRng ys g) = sdrop (length ys - 1) g"
      using shuffleWithRng_stake(1) [OF unit] by simp
  next
    fix h :: "'a heap" and arr
    assume "arr < length h \<and> fst (h ! arr) = map Some ys"
    then have "shuffleWithRngRef h arr g =
             (length h, snd (shuffleLoop (length ys - 1) (arrayOf ys) g),
              h @ [fst (shuffleLoop (length ys - 1) (arrayOf ys) g)])"
      by (simp add: shuffleWithRngRef_value)
    then show "shuffleWithRngRef h arr g =
                  (length h, sdrop (length ys - 1) g,
                   h @ [(map Some (fisherYates ys (stake (length ys - 1) g)), \<lambda>k. None)])"
      using shuffleLoop_arrayOf [OF unit] by simp
  qed
  have "\<forall>r \<in> set (stake (length xs - 1) (mulberry32 seed)). 0 \<le> r \<and> r < 1"
    using set_stake_sset [of "length xs - 1" "mulberry32 seed"] sset_mulberry32 [of _ seed]
    by blast
  then have "shufflesAsSpecified xs (mulberry32 seed)" by (rule general)
  with general [of xs rng] show ?thesis by blast
qed

theorem shuffleWithRng_permutation_witness:
  "list_all (\<lambda>r. 0 \<le> r \<and> r < 1) (stake (length ''abc'' - 1) (mulberry32 42))
   \<and> fst (shuffleWithRng ''abc'' (mulberry32 42)) = map Some ''cab''
   \<and> mset ''cab'' = mset ''abc''
   \<and> snd (shuffleWithRng ''abc'' (mulberry32 42)) = mulberry32 3663131668
   \<and> shuffleWithRngRef [arrayOf ''abc''] 0 (mulberry32 42)
       = (1, mulberry32 3663131668, [arrayOf ''abc'', arrayOf ''cab''])"
proof -
  have unit: "\<forall>r \<in> set (stake (length ''abc'' - 1) (mulberry32 42)). 0 \<le> r \<and> r < 1"
    by (simp add: mulberry32_42_1 mulberry32_42_2)
  have walk: "fisherYates ''abc'' (stake (length ''abc'' - 1) (mulberry32 42)) = ''cab''"
    by (simp add: mulberry32_42_1 mulberry32_42_2 fisherYates_def swapAt_def)
  have rest: "sdrop (length ''abc'' - 1) (mulberry32 42) = mulberry32 3663131668"
    by (simp add: mulberry32_42_1 mulberry32_42_2)
  have s: "shufflesAsSpecified ''abc'' (mulberry32 42)"
    using shuffleWithRng_permutation [of "''abc''" "mulberry32 42"] unit by blast
  note s' = s [unfolded shufflesAsSpecified_def walk rest]
  have inst: "0 < length [arrayOf ''abc''] \<and> fst ([arrayOf ''abc''] ! 0) = map Some ''abc''"
    by (simp add: arrayOf_def)
  from s' inst have "shuffleWithRngRef [arrayOf ''abc''] 0 (mulberry32 42)
       = (length [arrayOf ''abc''], mulberry32 3663131668,
          [arrayOf ''abc''] @ [(map Some ''cab'', \<lambda>k. None)])"
    by blast
  then have "shuffleWithRngRef [arrayOf ''abc''] 0 (mulberry32 42)
       = (1, mulberry32 3663131668, [arrayOf ''abc'', arrayOf ''cab''])"
    by (simp add: arrayOf_def)
  with s' unit show ?thesis by (simp add: list_all_iff)
qed

subsection \<open>Evaluating the shuffle on given draws\<close>

lemma shuffleLoop_draw:
  "shuffleLoop (Suc k) out (r ## rng) =
     shuffleLoop k
       (arraySet (arraySet out (int (Suc k)) (arrayGet out \<lfloor>r * (real (Suc k) + 1)\<rfloor>))
          \<lfloor>r * (real (Suc k) + 1)\<rfloor> (arrayGet out (int (Suc k))))
       rng"
  by (simp add: Let_def)

lemma shuffleWithRng_eval:
  "shuffleWithRng arr rng =
     (fst (fst (shuffleLoop (length arr - 1) (arrayOf arr) rng)),
      snd (shuffleLoop (length arr - 1) (arrayOf arr) rng))"
  by (simp add: shuffleWithRng_def Let_def split_beta)

lemma shuffle4_1:
  "shuffleWithRng [a, b, c, d]
     (2581720956 / 4294967296 ## 1925393290 / 4294967296 ## 3661312704 / 4294967296 ## rng)
   = ([Some a, Some d, Some b, Some c], rng)"
  by (simp add: shuffleWithRng_eval arrayOf_def shuffleLoop_draw arrayGet_def arraySet_def
      del: shuffleLoop.simps(2))

lemma shuffle4_2:
  "shuffleWithRng [a, b, c, d]
     (2876485805 / 4294967296 ## 750819978 / 4294967296 ## 2261697747 / 4294967296 ## rng)
   = ([Some d, Some b, Some a, Some c], rng)"
  by (simp add: shuffleWithRng_eval arrayOf_def shuffleLoop_draw arrayGet_def arraySet_def
      del: shuffleLoop.simps(2))

lemma shuffle4_3:
  "shuffleWithRng [a, b, c, d]
     (1173505300 / 4294967296 ## 2683257857 / 4294967296 ## 3717185310 / 4294967296 ## rng)
   = ([Some a, Some c, Some d, Some b], rng)"
  by (simp add: shuffleWithRng_eval arrayOf_def shuffleLoop_draw arrayGet_def arraySet_def
      del: shuffleLoop.simps(2))

lemma shuffle4_4:
  "shuffleWithRng [a, b, c, d]
     (2028586305 / 4294967296 ## 1073414265 / 4294967296 ## 3788413843 / 4294967296 ## rng)
   = ([Some c, Some d, Some a, Some b], rng)"
  by (simp add: shuffleWithRng_eval arrayOf_def shuffleLoop_draw arrayGet_def arraySet_def
      del: shuffleLoop.simps(2))

lemma shuffle4_5:
  "shuffleWithRng [a, b, c, d]
     (3202918453 / 4294967296 ## 1318561460 / 4294967296 ## 847198783 / 4294967296 ## rng)
   = ([Some b, Some d, Some a, Some c], rng)"
  by (simp add: shuffleWithRng_eval arrayOf_def shuffleLoop_draw arrayGet_def arraySet_def
      del: shuffleLoop.simps(2))

subsection \<open>The player map of \<^verbatim>\<open>buildPuzzle\<close>\<close>

lemma shuffleWithRng_unit:
  assumes "\<forall>r \<in> sset rng. 0 \<le> r \<and> r < 1"
  shows "\<exists>ys. shuffleWithRng xs rng = (map Some ys, sdrop (length xs - 1) rng)
              \<and> mset ys = mset xs"
proof -
  have "\<forall>r \<in> set (stake (length xs - 1) rng). 0 \<le> r \<and> r < 1"
    using assms set_stake_sset [of "length xs - 1" rng] by blast
  from shuffleWithRng_stake [OF this] show ?thesis by blast
qed

lemma sdrop_unit:
  assumes "\<forall>r \<in> sset rng. 0 \<le> r \<and> r < 1"
  shows "\<forall>r \<in> sset (sdrop n rng). 0 \<le> r \<and> r < 1"
  using assms sset_sdrop_subset [of n rng] by blast

lemma mulberry32_unit: "\<forall>r \<in> sset (mulberry32 seed). 0 \<le> r \<and> r < 1"
  using sset_mulberry32 by blast

lemma group_step:
  fixes m :: playerMap and k :: string and r :: ResultRecord
  defines "m1 \<equiv> (if map_of m k = None then AList.update k [] m else m)"
  defines "m2 \<equiv> AList.map_entry k (\<lambda>events. events @ [r]) m1"
  assumes "distinct (map fst m)"
  shows "distinct (map fst m2)"
    and "fst ` set m2 = insert k (fst ` set m)"
    and "map_of m2 = (map_of m)(k \<mapsto> orNil (map_of m k) @ [r])"
proof -
  have d1: "distinct (map fst m1)"
    using assms(3) by (simp add: m1_def distinct_update)
  then show "distinct (map fst m2)"
    by (simp add: m2_def distinct_map_entry)
  have k1: "fst ` set m1 = insert k (fst ` set m)"
    by (auto simp: m1_def dom_update map_of_eq_None_iff)
  then show "fst ` set m2 = insert k (fst ` set m)"
    by (simp add: m2_def dom_map_entry)
  have v1: "map_of m1 k = Some (orNil (map_of m k))"
    by (cases "map_of m k") (simp_all add: m1_def update_conv' orNil_def)
  have o1: "map_of m1 p = map_of m p" if "p \<noteq> k" for p
    using that by (simp add: m1_def update_conv')
  show "map_of m2 = (map_of m)(k \<mapsto> orNil (map_of m k) @ [r])"
    by (rule ext) (simp add: m2_def map_of_map_entry v1 o1)
qed

lemma groupRows_inv:
  assumes "distinct (map fst m)"
  shows "distinct (map fst (groupRows m rows))
    \<and> (\<forall>p. map_of (groupRows m rows) p =
          (if p \<in> fst ` set m \<union> ResultRecord.player_name ` set rows
           then Some (orNil (map_of m p) @ recordsOf rows p) else None))"
  using assms
proof (induction rows arbitrary: m)
  case Nil
  show ?case
  proof (intro conjI allI)
    show "distinct (map fst (groupRows m []))" using Nil by simp
    fix p
    show "map_of (groupRows m []) p =
          (if p \<in> fst ` set m \<union> ResultRecord.player_name ` set []
           then Some (orNil (map_of m p) @ recordsOf [] p) else None)"
      by (cases "map_of m p")
         (auto simp: recordsOf_def orNil_def map_of_eq_None_iff dest: map_of_SomeD intro: rev_image_eqI)
  qed
next
  case (Cons r rows)
  define k where "k = ResultRecord.player_name r"
  define m2 where "m2 = AList.map_entry k (\<lambda>events. events @ [r])
      (if map_of m k = None then AList.update k [] m else m)"
  have d2: "distinct (map fst m2)"
    and k2: "fst ` set m2 = insert k (fst ` set m)"
    and v2: "map_of m2 = (map_of m)(k \<mapsto> orNil (map_of m k) @ [r])"
    unfolding m2_def using group_step [OF Cons.prems, of k r] by simp_all
  have g: "groupRows m (r # rows) = groupRows m2 rows"
    by (simp add: m2_def k_def Let_def)
  from Cons.IH [OF d2]
  have ih1: "distinct (map fst (groupRows m2 rows))"
    and ih2: "\<And>p. map_of (groupRows m2 rows) p =
          (if p \<in> fst ` set m2 \<union> ResultRecord.player_name ` set rows
           then Some (orNil (map_of m2 p) @ recordsOf rows p) else None)"
    by simp_all
  show ?case
  proof (intro conjI allI)
    show "distinct (map fst (groupRows m (r # rows)))" using ih1 g by simp
    fix p
    show "map_of (groupRows m (r # rows)) p =
          (if p \<in> fst ` set m \<union> ResultRecord.player_name ` set (r # rows)
           then Some (orNil (map_of m p) @ recordsOf (r # rows) p) else None)"
    proof (cases "p = k")
      case True
      then show ?thesis
        unfolding g ih2 k2 v2 by (simp add: k_def recordsOf_def orNil_def)
    next
      case False
      then show ?thesis
        unfolding g ih2 k2 v2 by (auto simp: k_def recordsOf_def)
    qed
  qed
qed

lemma groupRows_empty:
  "distinct (map fst (groupRows [] rows))"
  "map_of (groupRows [] rows) p =
     (if p \<in> ResultRecord.player_name ` set rows then Some (recordsOf rows p) else None)"
  using groupRows_inv [of "[]" rows] by (simp_all add: orNil_def)

lemma groupRows_entries:
  "(p, ev) \<in> set (groupRows [] rows) \<longleftrightarrow>
     p \<in> ResultRecord.player_name ` set rows \<and> ev = recordsOf rows p"
proof -
  have "(p, ev) \<in> set (groupRows [] rows) \<longleftrightarrow> map_of (groupRows [] rows) p = Some ev"
    using groupRows_empty(1) [of rows] by simp
  then show ?thesis by (auto simp: groupRows_empty(2))
qed

lemma playersWithEnough_keys:
  "set (map fst (filter (\<lambda>(player, events). length events \<ge> CARDS_PER_GOLFER)
          (groupRows [] rows))) = set (qualifyingPlayers rows)"
  by (auto simp: qualifyingPlayers_def CARDS_PER_GOLFER_def groupRows_entries image_iff)

lemma playersWithEnough_distinct:
  "distinct (map fst (filter (\<lambda>(player, events). length events \<ge> CARDS_PER_GOLFER)
          (groupRows [] rows)))"
  using groupRows_empty(1) [of rows] by (rule distinct_map_filter)

lemma playersWithEnough_length:
  "length (filter (\<lambda>(player, events). length events \<ge> CARDS_PER_GOLFER) (groupRows [] rows))
     = length (qualifyingPlayers rows)"
proof -
  let ?pwe = "filter (\<lambda>(player, events). length events \<ge> CARDS_PER_GOLFER) (groupRows [] rows)"
  have "length ?pwe = length (map fst ?pwe)" by simp
  also have "\<dots> = card (set (map fst ?pwe))"
    using playersWithEnough_distinct [of rows] by (simp only: distinct_card)
  also have "\<dots> = card (set (qualifyingPlayers rows))"
    by (simp only: playersWithEnough_keys)
  also have "\<dots> = length (qualifyingPlayers rows)"
    by (rule distinct_card) (simp add: qualifyingPlayers_def)
  finally show ?thesis .
qed

lemma toCards_Some:
  "toCards (map Some zs) =
     Inr (map (\<lambda>e. Card (ResultRecord.event_name e) (ResultRecord.year e)
                      (ResultRecord.score_to_par e)) zs)"
  by (induction zs) simp_all

lemma buildEntries_ok:
  assumes "\<forall>r \<in> sset rng. 0 \<le> r \<and> r < 1"
    and "\<forall>(p, ev) \<in> set sel. CARDS_PER_GOLFER \<le> length ev"
  shows "\<exists>es. buildEntries (map Some sel) rng = Inr es
           \<and> map PlayerEntry.player_name es = map fst sel
           \<and> (\<forall>e \<in> set es. length (cards e) = CARDS_PER_GOLFER)"
  using assms
proof (induction sel arbitrary: rng)
  case Nil
  show ?case by simp
next
  case (Cons a sel)
  obtain p ev where a: "a = (p, ev)" by (cases a)
  from Cons.prems(2) a have ev: "CARDS_PER_GOLFER \<le> length ev" by simp
  obtain ys where sh: "shuffleWithRng ev rng = (map Some ys, sdrop (length ev - 1) rng)"
    and ys: "mset ys = mset ev"
    using shuffleWithRng_unit [OF Cons.prems(1), of ev] by blast
  have len: "length ys = length ev" using ys by (rule mset_eq_length)
  have rest: "\<forall>(p, ev) \<in> set sel. CARDS_PER_GOLFER \<le> length ev"
    using Cons.prems(2) by simp
  obtain es where es: "buildEntries (map Some sel) (sdrop (length ev - 1) rng) = Inr es"
    and names: "map PlayerEntry.player_name es = map fst sel"
    and four: "\<forall>e \<in> set es. length (cards e) = CARDS_PER_GOLFER"
    using Cons.IH [OF sdrop_unit [OF Cons.prems(1)] rest] by blast
  let ?cs = "map (\<lambda>e. Card (ResultRecord.event_name e) (ResultRecord.year e)
                      (ResultRecord.score_to_par e)) (take CARDS_PER_GOLFER ys)"
  have "buildEntries (map Some (a # sel)) rng = Inr (PlayerEntry p ?cs # es)"
    using es by (simp add: a sh take_map toCards_Some)
  moreover have "length ?cs = CARDS_PER_GOLFER" using ev len by simp
  ultimately show ?case using names four by (simp add: a)
qed

lemma buildPuzzle_short:
  assumes "length (qualifyingPlayers rows) < GOLFERS_PER_GAME"
  shows "buildPuzzle rows seed =
     Inl (Error (''Need at least 4 golfers with 4+ events. Found ''
                 @ jsString (int (length (qualifyingPlayers rows))) @ ''.''))"
proof -
  have four: "jsString (int GOLFERS_PER_GAME) = ''4''" "jsString (int CARDS_PER_GOLFER) = ''4''"
    by (simp_all add: GOLFERS_PER_GAME_def CARDS_PER_GOLFER_def jsString_def natToString.simps
        digitChar_def)
  show ?thesis
    using assms by (simp add: buildPuzzle_def Let_def playersWithEnough_length four)
qed

lemma buildPuzzle_enough:
  assumes "GOLFERS_PER_GAME \<le> length (qualifyingPlayers rows)"
  shows "\<exists>ys es. mset ys = mset (filter (\<lambda>(player, events). length events \<ge> CARDS_PER_GOLFER)
                                 (groupRows [] rows))
           \<and> buildPuzzle rows seed = Inr es
           \<and> map PlayerEntry.player_name es = map fst (take GOLFERS_PER_GAME ys)
           \<and> length es = GOLFERS_PER_GAME
           \<and> (\<forall>e \<in> set es. length (cards e) = CARDS_PER_GOLFER)"
proof -
  let ?pwe = "filter (\<lambda>(player, events). length events \<ge> CARDS_PER_GOLFER) (groupRows [] rows)"
  have n: "GOLFERS_PER_GAME \<le> length ?pwe"
    using assms by (simp only: playersWithEnough_length)
  obtain ys where sh: "shuffleWithRng ?pwe (mulberry32 seed)
        = (map Some ys, sdrop (length ?pwe - 1) (mulberry32 seed))"
    and ys: "mset ys = mset ?pwe"
    using shuffleWithRng_unit [OF mulberry32_unit, of ?pwe seed] by blast
  have len: "length ys = length ?pwe" using ys by (rule mset_eq_length)
  have "set (take GOLFERS_PER_GAME ys) \<subseteq> set ?pwe"
    using set_take_subset [of GOLFERS_PER_GAME ys] mset_eq_setD [OF ys] by simp
  then have sel: "\<forall>(p, ev) \<in> set (take GOLFERS_PER_GAME ys). CARDS_PER_GOLFER \<le> length ev"
    by auto
  obtain es where es: "buildEntries (map Some (take GOLFERS_PER_GAME ys))
         (sdrop (length ?pwe - 1) (mulberry32 seed)) = Inr es"
    and names: "map PlayerEntry.player_name es = map fst (take GOLFERS_PER_GAME ys)"
    and four: "\<forall>e \<in> set es. length (cards e) = CARDS_PER_GOLFER"
    using buildEntries_ok [OF sdrop_unit [OF mulberry32_unit] sel] by blast
  have "buildPuzzle rows seed = Inr es"
    using n es by (simp add: buildPuzzle_def Let_def sh take_map)
  moreover have "length es = GOLFERS_PER_GAME"
    using names n len by (metis length_map length_take min.absorb2)
  ultimately show ?thesis using ys names four by blast
qed

subsection \<open>\<^verbatim>\<open>buildPuzzle\<close> on the sample input\<close>

lemma groupRows_step:
  "groupRows m (r # rows) =
     groupRows
       (AList.map_entry (ResultRecord.player_name r) (\<lambda>events. events @ [r])
          (if map_of m (ResultRecord.player_name r) = None
           then AList.update (ResultRecord.player_name r) [] m else m))
       rows"
  by (simp add: Let_def)

lemma groupRows_example:
  "groupRows [] exampleRows =
    [(''Woods'', [ResultRecord ''Woods'' ''Masters'' 2021 (- 3),
     ResultRecord ''Woods'' ''PGA'' 2022 2,
     ResultRecord ''Woods'' ''US Open'' 2023 (- 11),
     ResultRecord ''Woods'' ''Open'' 2024 0]),
     (''Rahm'', [ResultRecord ''Rahm'' ''Masters'' 2021 (- 7),
     ResultRecord ''Rahm'' ''PGA'' 2022 5,
     ResultRecord ''Rahm'' ''US Open'' 2023 1,
     ResultRecord ''Rahm'' ''Open'' 2024 (- 4)]),
     (''Day'', [ResultRecord ''Day'' ''Masters'' 2020 (- 2),
     ResultRecord ''Day'' ''PGA'' 2021 6,
     ResultRecord ''Day'' ''Open'' 2022 1]),
     (''Spieth'', [ResultRecord ''Spieth'' ''Masters'' 2021 3,
     ResultRecord ''Spieth'' ''PGA'' 2022 (- 2),
     ResultRecord ''Spieth'' ''US Open'' 2023 (- 9),
     ResultRecord ''Spieth'' ''Open'' 2024 7]),
     (''Koepka'', [ResultRecord ''Koepka'' ''Masters'' 2021 (- 1),
     ResultRecord ''Koepka'' ''PGA'' 2022 (- 6),
     ResultRecord ''Koepka'' ''US Open'' 2023 4,
     ResultRecord ''Koepka'' ''Open'' 2024 (- 12)])]"
  by (simp add: exampleRows_def groupRows_step del: groupRows.simps(2))

lemma buildEntries_eval:
  "buildEntries (Some (player, events) # rest) rng =
     (case toCards (take CARDS_PER_GOLFER (fst (shuffleWithRng events rng))) of
        Inl err \<Rightarrow> Inl err
      | Inr cs \<Rightarrow>
          (case buildEntries rest (snd (shuffleWithRng events rng)) of
             Inl err \<Rightarrow> Inl err
           | Inr es \<Rightarrow> Inr (PlayerEntry player cs # es)))"
  by (simp add: split_beta)

lemma buildPuzzle_eval:
  assumes "groupRows [] rows = g"
    and "filter (\<lambda>(player, events). length events \<ge> CARDS_PER_GOLFER) g = pwe"
    and "GOLFERS_PER_GAME \<le> length pwe"
    and "shuffleWithRng pwe (mulberry32 seed) = (shuffled, rng1)"
    and "buildEntries (take GOLFERS_PER_GAME shuffled) rng1 = res"
  shows "buildPuzzle rows seed = res"
  using assms by (auto simp: buildPuzzle_def Let_def)

lemma mulberry32_42_unfold:
  "mulberry32 42 =
     2581720956 / 4294967296 ## 1925393290 / 4294967296 ## 3661312704 / 4294967296 ##
     2876485805 / 4294967296 ## 750819978 / 4294967296 ## 2261697747 / 4294967296 ##
     1173505300 / 4294967296 ## 2683257857 / 4294967296 ## 3717185310 / 4294967296 ##
     2028586305 / 4294967296 ## 1073414265 / 4294967296 ## 3788413843 / 4294967296 ##
     3202918453 / 4294967296 ## 1318561460 / 4294967296 ## 847198783 / 4294967296 ##
     mulberry32 27473487237"
  by (simp only: mulberry32_42_draws)

lemma buildPuzzle_example: "buildPuzzle exampleRows 42 = Inr examplePuzzle"
proof (rule buildPuzzle_eval)
  show "groupRows [] exampleRows =
    [(''Woods'', [ResultRecord ''Woods'' ''Masters'' 2021 (- 3),
       ResultRecord ''Woods'' ''PGA'' 2022 2,
       ResultRecord ''Woods'' ''US Open'' 2023 (- 11),
       ResultRecord ''Woods'' ''Open'' 2024 0]),
     (''Rahm'', [ResultRecord ''Rahm'' ''Masters'' 2021 (- 7),
       ResultRecord ''Rahm'' ''PGA'' 2022 5,
       ResultRecord ''Rahm'' ''US Open'' 2023 1,
       ResultRecord ''Rahm'' ''Open'' 2024 (- 4)]),
     (''Day'', [ResultRecord ''Day'' ''Masters'' 2020 (- 2),
       ResultRecord ''Day'' ''PGA'' 2021 6,
       ResultRecord ''Day'' ''Open'' 2022 1]),
     (''Spieth'', [ResultRecord ''Spieth'' ''Masters'' 2021 3,
       ResultRecord ''Spieth'' ''PGA'' 2022 (- 2),
       ResultRecord ''Spieth'' ''US Open'' 2023 (- 9),
       ResultRecord ''Spieth'' ''Open'' 2024 7]),
     (''Koepka'', [ResultRecord ''Koepka'' ''Masters'' 2021 (- 1),
       ResultRecord ''Koepka'' ''PGA'' 2022 (- 6),
       ResultRecord ''Koepka'' ''US Open'' 2023 4,
       ResultRecord ''Koepka'' ''Open'' 2024 (- 12)])]"
    by (rule groupRows_example)
  show "filter (\<lambda>(player, events). length events \<ge> CARDS_PER_GOLFER)
    [(''Woods'', [ResultRecord ''Woods'' ''Masters'' 2021 (- 3),
       ResultRecord ''Woods'' ''PGA'' 2022 2,
       ResultRecord ''Woods'' ''US Open'' 2023 (- 11),
       ResultRecord ''Woods'' ''Open'' 2024 0]),
     (''Rahm'', [ResultRecord ''Rahm'' ''Masters'' 2021 (- 7),
       ResultRecord ''Rahm'' ''PGA'' 2022 5,
       ResultRecord ''Rahm'' ''US Open'' 2023 1,
       ResultRecord ''Rahm'' ''Open'' 2024 (- 4)]),
     (''Day'', [ResultRecord ''Day'' ''Masters'' 2020 (- 2),
       ResultRecord ''Day'' ''PGA'' 2021 6,
       ResultRecord ''Day'' ''Open'' 2022 1]),
     (''Spieth'', [ResultRecord ''Spieth'' ''Masters'' 2021 3,
       ResultRecord ''Spieth'' ''PGA'' 2022 (- 2),
       ResultRecord ''Spieth'' ''US Open'' 2023 (- 9),
       ResultRecord ''Spieth'' ''Open'' 2024 7]),
     (''Koepka'', [ResultRecord ''Koepka'' ''Masters'' 2021 (- 1),
       ResultRecord ''Koepka'' ''PGA'' 2022 (- 6),
       ResultRecord ''Koepka'' ''US Open'' 2023 4,
       ResultRecord ''Koepka'' ''Open'' 2024 (- 12)])] =
    [(''Woods'', [ResultRecord ''Woods'' ''Masters'' 2021 (- 3),
       ResultRecord ''Woods'' ''PGA'' 2022 2,
       ResultRecord ''Woods'' ''US Open'' 2023 (- 11),
       ResultRecord ''Woods'' ''Open'' 2024 0]),
     (''Rahm'', [ResultRecord ''Rahm'' ''Masters'' 2021 (- 7),
       ResultRecord ''Rahm'' ''PGA'' 2022 5,
       ResultRecord ''Rahm'' ''US Open'' 2023 1,
       ResultRecord ''Rahm'' ''Open'' 2024 (- 4)]),
     (''Spieth'', [ResultRecord ''Spieth'' ''Masters'' 2021 3,
       ResultRecord ''Spieth'' ''PGA'' 2022 (- 2),
       ResultRecord ''Spieth'' ''US Open'' 2023 (- 9),
       ResultRecord ''Spieth'' ''Open'' 2024 7]),
     (''Koepka'', [ResultRecord ''Koepka'' ''Masters'' 2021 (- 1),
       ResultRecord ''Koepka'' ''PGA'' 2022 (- 6),
       ResultRecord ''Koepka'' ''US Open'' 2023 4,
       ResultRecord ''Koepka'' ''Open'' 2024 (- 12)])]"
    by (simp add: CARDS_PER_GOLFER_def)
  show "GOLFERS_PER_GAME \<le> length
    [(''Woods'', [ResultRecord ''Woods'' ''Masters'' 2021 (- 3),
       ResultRecord ''Woods'' ''PGA'' 2022 2,
       ResultRecord ''Woods'' ''US Open'' 2023 (- 11),
       ResultRecord ''Woods'' ''Open'' 2024 0]),
     (''Rahm'', [ResultRecord ''Rahm'' ''Masters'' 2021 (- 7),
       ResultRecord ''Rahm'' ''PGA'' 2022 5,
       ResultRecord ''Rahm'' ''US Open'' 2023 1,
       ResultRecord ''Rahm'' ''Open'' 2024 (- 4)]),
     (''Spieth'', [ResultRecord ''Spieth'' ''Masters'' 2021 3,
       ResultRecord ''Spieth'' ''PGA'' 2022 (- 2),
       ResultRecord ''Spieth'' ''US Open'' 2023 (- 9),
       ResultRecord ''Spieth'' ''Open'' 2024 7]),
     (''Koepka'', [ResultRecord ''Koepka'' ''Masters'' 2021 (- 1),
       ResultRecord ''Koepka'' ''PGA'' 2022 (- 6),
       ResultRecord ''Koepka'' ''US Open'' 2023 4,
       ResultRecord ''Koepka'' ''Open'' 2024 (- 12)])]"
    by (simp add: GOLFERS_PER_GAME_def)
  show "shuffleWithRng
    [(''Woods'', [ResultRecord ''Woods'' ''Masters'' 2021 (- 3),
       ResultRecord ''Woods'' ''PGA'' 2022 2,
       ResultRecord ''Woods'' ''US Open'' 2023 (- 11),
       ResultRecord ''Woods'' ''Open'' 2024 0]),
     (''Rahm'', [ResultRecord ''Rahm'' ''Masters'' 2021 (- 7),
       ResultRecord ''Rahm'' ''PGA'' 2022 5,
       ResultRecord ''Rahm'' ''US Open'' 2023 1,
       ResultRecord ''Rahm'' ''Open'' 2024 (- 4)]),
     (''Spieth'', [ResultRecord ''Spieth'' ''Masters'' 2021 3,
       ResultRecord ''Spieth'' ''PGA'' 2022 (- 2),
       ResultRecord ''Spieth'' ''US Open'' 2023 (- 9),
       ResultRecord ''Spieth'' ''Open'' 2024 7]),
     (''Koepka'', [ResultRecord ''Koepka'' ''Masters'' 2021 (- 1),
       ResultRecord ''Koepka'' ''PGA'' 2022 (- 6),
       ResultRecord ''Koepka'' ''US Open'' 2023 4,
       ResultRecord ''Koepka'' ''Open'' 2024 (- 12)])] (mulberry32 42) =
    ([Some (''Woods'', [ResultRecord ''Woods'' ''Masters'' 2021 (- 3),
       ResultRecord ''Woods'' ''PGA'' 2022 2,
       ResultRecord ''Woods'' ''US Open'' 2023 (- 11),
       ResultRecord ''Woods'' ''Open'' 2024 0]),
     Some (''Koepka'', [ResultRecord ''Koepka'' ''Masters'' 2021 (- 1),
       ResultRecord ''Koepka'' ''PGA'' 2022 (- 6),
       ResultRecord ''Koepka'' ''US Open'' 2023 4,
       ResultRecord ''Koepka'' ''Open'' 2024 (- 12)]),
     Some (''Rahm'', [ResultRecord ''Rahm'' ''Masters'' 2021 (- 7),
       ResultRecord ''Rahm'' ''PGA'' 2022 5,
       ResultRecord ''Rahm'' ''US Open'' 2023 1,
       ResultRecord ''Rahm'' ''Open'' 2024 (- 4)]),
     Some (''Spieth'', [ResultRecord ''Spieth'' ''Masters'' 2021 3,
       ResultRecord ''Spieth'' ''PGA'' 2022 (- 2),
       ResultRecord ''Spieth'' ''US Open'' 2023 (- 9),
       ResultRecord ''Spieth'' ''Open'' 2024 7])],
     2876485805 / 4294967296 ## 750819978 / 4294967296 ## 2261697747 / 4294967296 ##
     1173505300 / 4294967296 ## 2683257857 / 4294967296 ## 3717185310 / 4294967296 ##
     2028586305 / 4294967296 ## 1073414265 / 4294967296 ## 3788413843 / 4294967296 ##
     3202918453 / 4294967296 ## 1318561460 / 4294967296 ## 847198783 / 4294967296 ##
     mulberry32 27473487237)"
    by (simp only: mulberry32_42_unfold shuffle4_1)
  have four: "take CARDS_PER_GOLFER [a, b, c, d] = [a, b, c, d]" for a b c d :: "ResultRecord option"
    by (simp add: CARDS_PER_GOLFER_def)
  have sel: "take GOLFERS_PER_GAME [a, b, c, d] = [a, b, c, d]"
    for a b c d :: "(string \<times> ResultRecord list) option"
    by (simp add: GOLFERS_PER_GAME_def)
  show "buildEntries (take GOLFERS_PER_GAME
    [Some (''Woods'', [ResultRecord ''Woods'' ''Masters'' 2021 (- 3),
       ResultRecord ''Woods'' ''PGA'' 2022 2,
       ResultRecord ''Woods'' ''US Open'' 2023 (- 11),
       ResultRecord ''Woods'' ''Open'' 2024 0]),
     Some (''Koepka'', [ResultRecord ''Koepka'' ''Masters'' 2021 (- 1),
       ResultRecord ''Koepka'' ''PGA'' 2022 (- 6),
       ResultRecord ''Koepka'' ''US Open'' 2023 4,
       ResultRecord ''Koepka'' ''Open'' 2024 (- 12)]),
     Some (''Rahm'', [ResultRecord ''Rahm'' ''Masters'' 2021 (- 7),
       ResultRecord ''Rahm'' ''PGA'' 2022 5,
       ResultRecord ''Rahm'' ''US Open'' 2023 1,
       ResultRecord ''Rahm'' ''Open'' 2024 (- 4)]),
     Some (''Spieth'', [ResultRecord ''Spieth'' ''Masters'' 2021 3,
       ResultRecord ''Spieth'' ''PGA'' 2022 (- 2),
       ResultRecord ''Spieth'' ''US Open'' 2023 (- 9),
       ResultRecord ''Spieth'' ''Open'' 2024 7])])
    (2876485805 / 4294967296 ## 750819978 / 4294967296 ## 2261697747 / 4294967296 ##
     1173505300 / 4294967296 ## 2683257857 / 4294967296 ## 3717185310 / 4294967296 ##
     2028586305 / 4294967296 ## 1073414265 / 4294967296 ## 3788413843 / 4294967296 ##
     3202918453 / 4294967296 ## 1318561460 / 4294967296 ## 847198783 / 4294967296 ##
     mulberry32 27473487237) = Inr examplePuzzle"
    by (simp only: sel buildEntries_eval shuffle4_2 shuffle4_3 shuffle4_4 shuffle4_5 fst_conv
        snd_conv four toCards.simps buildEntries.simps(1) sum.case ResultRecord.sel
        examplePuzzle_def)
qed


subsection \<open>The claims on \<^verbatim>\<open>buildPuzzle\<close>\<close>

text \<open>
  Claim C2. \<^verbatim>\<open>buildPuzzle\<close> throws its error (an \<^verbatim>\<open>Error\<close> whose message reports the
  count found) exactly when fewer than 4 distinct players have at least 4 records in the
  input; players with fewer than 4 records do not count. In that case no puzzle is
  returned; in every other case a puzzle is returned, and no other exception is raised.
\<close>

theorem buildPuzzle_fails_iff:
  "((\<exists>msg. buildPuzzle rows seed = Inl (Error msg)) \<longleftrightarrow> length (qualifyingPlayers rows) < 4)
   \<and> ((\<exists>puzzle. buildPuzzle rows seed = Inr puzzle) \<longleftrightarrow> 4 \<le> length (qualifyingPlayers rows))
   \<and> buildPuzzle rows seed \<noteq> Inl TypeError
   \<and> (buildPuzzle rows seed =
         Inl (Error (''Need at least 4 golfers with 4+ events. Found ''
                 @ jsString (int (length (qualifyingPlayers rows))) @ ''.''))
        \<longleftrightarrow> length (qualifyingPlayers rows) < 4)"
proof (cases "length (qualifyingPlayers rows) < 4")
  case True
  then have "length (qualifyingPlayers rows) < GOLFERS_PER_GAME"
    by (simp add: GOLFERS_PER_GAME_def)
  from buildPuzzle_short [OF this, of seed] True show ?thesis by simp
next
  case False
  then have "GOLFERS_PER_GAME \<le> length (qualifyingPlayers rows)"
    by (simp add: GOLFERS_PER_GAME_def)
  from buildPuzzle_enough [OF this, of seed] obtain es where "buildPuzzle rows seed = Inr es"
    by blast
  with False show ?thesis by simp
qed

theorem buildPuzzle_fails_iff_witness:
  "length (qualifyingPlayers exampleRows) = 4
   \<and> buildPuzzle exampleRows 42 = Inr examplePuzzle
   \<and> length (qualifyingPlayers (take 17 exampleRows)) = 3
   \<and> buildPuzzle (take 17 exampleRows) 42
       = Inl (Error ''Need at least 4 golfers with 4+ events. Found 3.'')"
proof -
  have q4: "length (qualifyingPlayers exampleRows) = 4"
    by (simp add: qualifyingPlayers_def recordsOf_def exampleRows_def)
  have q3: "length (qualifyingPlayers (take 17 exampleRows)) = 3"
    by (simp add: qualifyingPlayers_def recordsOf_def exampleRows_def)
  have three: "jsString 3 = ''3''"
    by (simp add: jsString_def natToString.simps digitChar_def)
  show ?thesis
    using buildPuzzle_fails_iff [of "take 17 exampleRows" 42]
      buildPuzzle_fails_iff [of exampleRows 42] buildPuzzle_example
    by (simp add: q4 q3 three)
qed

text \<open>
  Claim C3. Whenever \<^verbatim>\<open>buildPuzzle\<close> returns a puzzle, the puzzle has exactly 4 player
  entries and each entry has exactly 4 cards.
\<close>

theorem buildPuzzle_cardinality:
  assumes "buildPuzzle rows seed = Inr puzzle"
  shows "length puzzle = 4 \<and> (\<forall>e \<in> set puzzle. length (cards e) = 4)"
proof -
  have "\<not> length (qualifyingPlayers rows) < GOLFERS_PER_GAME"
    using assms buildPuzzle_short [of rows seed] by auto
  then have "GOLFERS_PER_GAME \<le> length (qualifyingPlayers rows)" by simp
  from buildPuzzle_enough [OF this, of seed] assms show ?thesis
    by (auto simp: GOLFERS_PER_GAME_def CARDS_PER_GOLFER_def)
qed

theorem buildPuzzle_cardinality_witness:
  "buildPuzzle exampleRows 42 = Inr examplePuzzle
   \<and> length examplePuzzle = 4
   \<and> list_all (\<lambda>e. length (cards e) = 4) examplePuzzle"
  using buildPuzzle_cardinality [OF buildPuzzle_example] buildPuzzle_example
  by (simp add: list_all_iff)

text \<open>
  Claim C7. In every puzzle that \<^verbatim>\<open>buildPuzzle\<close> returns the player names of the entries
  are pairwise distinct: the entries come from a map keyed by the name.
\<close>

theorem buildPuzzle_distinct_players:
  assumes "buildPuzzle rows seed = Inr puzzle"
  shows "distinct (map PlayerEntry.player_name puzzle)"
proof -
  let ?pwe = "filter (\<lambda>(player, events). length events \<ge> CARDS_PER_GOLFER) (groupRows [] rows)"
  have "\<not> length (qualifyingPlayers rows) < GOLFERS_PER_GAME"
    using assms buildPuzzle_short [of rows seed] by auto
  then have "GOLFERS_PER_GAME \<le> length (qualifyingPlayers rows)" by simp
  from buildPuzzle_enough [OF this, of seed] assms
  obtain ys where ys: "mset ys = mset ?pwe"
    and names: "map PlayerEntry.player_name puzzle = map fst (take GOLFERS_PER_GAME ys)"
    by auto
  have "mset (map fst ys) = mset (map fst ?pwe)" using ys by simp
  then have "distinct (map fst ys)"
    using playersWithEnough_distinct [of rows] mset_eq_imp_distinct_iff by blast
  then have "distinct (take GOLFERS_PER_GAME (map fst ys))" by (rule distinct_take)
  then show ?thesis by (simp add: names take_map)
qed


theorem buildPuzzle_distinct_players_witness:
  "buildPuzzle exampleRows 42 = Inr examplePuzzle
   \<and> distinct (map PlayerEntry.player_name examplePuzzle)"
  using buildPuzzle_distinct_players [OF buildPuzzle_example] buildPuzzle_example
  by simp





subsection \<open>\<^verbatim>\<open>parseCSV\<close>\<close>

lemma parseCSV_unfold:
  "parseCSV txt =
     (if length (csvLines txt) < 2 then []
      else map (\<lambda>i. makeRow (csvHeaders txt) (csvFields txt i)) [1..<length (csvLines txt)])"
  by (simp add: parseCSV_def csvLines_def csvHeaders_def csvFields_def Let_def)

lemma fold_upt_Suc: "fold f [0..<Suc k] m = f k (fold f [0..<k] m)"
  by simp

lemma makeRow_prefix:
  assumes "k \<le> length headers"
  shows "dom (fold (\<lambda>j r. setProp r (headers ! j) (valAt vals j)) [0..<k] Map.empty)
           = set (take k headers) - {''__proto__''}
    \<and> (\<forall>j < k. headers ! j \<noteq> ''__proto__'' \<and> headers ! j \<notin> set (drop (Suc j) (take k headers))
          \<longrightarrow> fold (\<lambda>j r. setProp r (headers ! j) (valAt vals j)) [0..<k] Map.empty (headers ! j)
              = Some (valAt vals j))"
  using assms
proof (induction k)
  case 0
  show ?case by simp
next
  case (Suc k)
  let ?f = "\<lambda>j r. setProp r (headers ! j) (valAt vals j)"
  let ?r = "fold ?f [0..<k] Map.empty"
  from Suc.prems have k: "k < length headers" by simp
  from Suc.IH k
  have ih_dom: "dom ?r = set (take k headers) - {''__proto__''}"
    and ih_val: "\<And>j. j < k \<Longrightarrow> headers ! j \<noteq> ''__proto__'' \<Longrightarrow>
        headers ! j \<notin> set (drop (Suc j) (take k headers)) \<Longrightarrow> ?r (headers ! j) = Some (valAt vals j)"
    by simp_all
  have step: "fold ?f [0..<Suc k] Map.empty = setProp ?r (headers ! k) (valAt vals k)"
    by (rule fold_upt_Suc)
  have tk: "take (Suc k) headers = take k headers @ [headers ! k]"
    using k by (rule take_Suc_conv_app_nth)
  have d: "dom (fold ?f [0..<Suc k] Map.empty) = set (take (Suc k) headers) - {''__proto__''}"
    unfolding step tk using ih_dom by (auto simp: setProp_def)
  have v: "fold ?f [0..<Suc k] Map.empty (headers ! j) = Some (valAt vals j)"
    if j: "j < Suc k" and np: "headers ! j \<noteq> ''__proto__''"
      and nl: "headers ! j \<notin> set (drop (Suc j) (take (Suc k) headers))" for j
  proof (cases "j = k")
    case True
    then show ?thesis unfolding step using np by (simp add: setProp_def)
  next
    case False
    with j have jk: "j < k" by simp
    have "drop (Suc j) (take (Suc k) headers) = drop (Suc j) (take k headers) @ [headers ! k]"
      unfolding tk using jk k by simp
    with nl have ne: "headers ! j \<noteq> headers ! k"
      and nl': "headers ! j \<notin> set (drop (Suc j) (take k headers))"
      by auto
    from ih_val [OF jk np nl'] ne show ?thesis
      unfolding step by (simp add: setProp_def)
  qed
  from d v show ?case by blast
qed

lemma makeRow_props:
  "dom (makeRow headers vals) = set headers - {''__proto__''}"
  "j < length headers \<Longrightarrow> headers ! j \<noteq> ''__proto__'' \<Longrightarrow>
     headers ! j \<notin> set (drop (Suc j) headers) \<Longrightarrow>
     makeRow headers vals (headers ! j) = Some (valAt vals j)"
  using makeRow_prefix [of "length headers" headers vals]
  by (simp_all add: makeRow_def)

lemma parseCSV_nth:
  assumes "2 \<le> length (csvLines txt)" and "1 \<le> i" and "i < length (csvLines txt)"
  shows "parseCSV txt ! (i - 1) = makeRow (csvHeaders txt) (csvFields txt i)"
proof -
  have lt: "i - 1 < length [1..<length (csvLines txt)]" using assms by simp
  have "[1..<length (csvLines txt)] ! (i - 1) = i"
    using assms by (simp add: nth_upt)
  with lt show ?thesis
    using assms(1) by (simp only: parseCSV_unfold nth_map) simp
qed

text \<open>
  Claim C10, amended. \<^verbatim>\<open>parseCSV\<close> returns the empty list when the trimmed text has
  fewer than two lines. Otherwise it returns one record per line after the header; the
  properties of each record are the trimmed header names other than \<^verbatim>\<open>__proto__\<close>, and
  a name that does not occur again later in the header row is mapped to the trimmed field
  at its position, or to the empty string when the line has no field there.
\<close>

theorem parseCSV_records:
  "(length (csvLines txt) < 2 \<longrightarrow> parseCSV txt = [])
   \<and> (2 \<le> length (csvLines txt) \<longrightarrow>
        length (parseCSV txt) = length (csvLines txt) - 1
        \<and> (\<forall>i. 1 \<le> i \<and> i < length (csvLines txt) \<longrightarrow>
              dom (parseCSV txt ! (i - 1)) = set (csvHeaders txt) - {''__proto__''}
              \<and> (\<forall>j < length (csvHeaders txt).
                    csvHeaders txt ! j \<noteq> ''__proto__''
                    \<and> csvHeaders txt ! j \<notin> set (drop (Suc j) (csvHeaders txt))
                    \<longrightarrow> (parseCSV txt ! (i - 1)) (csvHeaders txt ! j)
                        = Some (valAt (csvFields txt i) j))))"
proof (intro conjI impI allI)
  assume "length (csvLines txt) < 2"
  then show "parseCSV txt = []" by (simp add: parseCSV_unfold)
next
  assume "2 \<le> length (csvLines txt)"
  then show "length (parseCSV txt) = length (csvLines txt) - 1"
    by (simp add: parseCSV_unfold)
next
  fix i
  assume n: "2 \<le> length (csvLines txt)" and i: "1 \<le> i \<and> i < length (csvLines txt)"
  then have r: "parseCSV txt ! (i - 1) = makeRow (csvHeaders txt) (csvFields txt i)"
    using parseCSV_nth [of "txt" i] by simp
  show "dom (parseCSV txt ! (i - 1)) = set (csvHeaders txt) - {''__proto__''}"
    unfolding r by (rule makeRow_props(1))
next
  fix i j
  assume n: "2 \<le> length (csvLines txt)" and i: "1 \<le> i \<and> i < length (csvLines txt)"
    and j: "j < length (csvHeaders txt)"
    and h: "csvHeaders txt ! j \<noteq> ''__proto__''
                    \<and> csvHeaders txt ! j \<notin> set (drop (Suc j) (csvHeaders txt))"
  from n i have r: "parseCSV txt ! (i - 1) = makeRow (csvHeaders txt) (csvFields txt i)"
    using parseCSV_nth [of "txt" i] by simp
  show "(parseCSV txt ! (i - 1)) (csvHeaders txt ! j) = Some (valAt (csvFields txt i) j)"
    unfolding r using j h by (simp add: makeRow_props(2))
qed

lemma csvLines_sampleCsv:
  "csvLines sampleCsv =
     [''player_name,event_name,year,score_to_par,position'',
      ''Tiger Woods, Masters ,2021,-3,T5'', ''Jon Rahm,US Open,2023'',
      ''Jason Day,PGA,2022,+4,CUT'']"
  by (simp add: csvLines_def sampleCsv_def trim_def isWhiteSpace_def)

lemma csvHeaders_sampleCsv:
  "csvHeaders sampleCsv =
     [''player_name'', ''event_name'', ''year'', ''score_to_par'', ''position'']"
  by (simp add: csvHeaders_def csvLines_sampleCsv trim_def isWhiteSpace_def)

lemma csvFields_sampleCsv:
  "csvFields sampleCsv (Suc 0) = [''Tiger Woods'', ''Masters'', ''2021'', ''-3'', ''T5'']"
  "csvFields sampleCsv 2 = [''Jon Rahm'', ''US Open'', ''2023'']"
  "csvFields sampleCsv 3 = [''Jason Day'', ''PGA'', ''2022'', ''+4'', ''CUT'']"
  by (simp_all add: csvFields_def csvLines_sampleCsv trim_def isWhiteSpace_def)

theorem parseCSV_records_witness:
  "length (csvLines sampleCsv) = 4
   \<and> length (parseCSV sampleCsv) = 3
   \<and> (parseCSV sampleCsv ! 0) ''event_name'' = Some ''Masters''
   \<and> (parseCSV sampleCsv ! 1) ''score_to_par'' = Some ''''
   \<and> dom (parseCSV sampleCsv ! 2)
       = {''player_name'', ''event_name'', ''year'', ''score_to_par'', ''position''}
   \<and> parseCSV '''' = []"
proof -
  note t = parseCSV_records [of sampleCsv]
  have n: "length (csvLines sampleCsv) = 4" by (simp add: csvLines_sampleCsv)
  from t n have len: "length (parseCSV sampleCsv) = 3" by simp
  from t n have rows: "\<And>i. 1 \<le> i \<Longrightarrow> i < 4 \<Longrightarrow>
      dom (parseCSV sampleCsv ! (i - 1)) = set (csvHeaders sampleCsv) - {''__proto__''}
      \<and> (\<forall>j < length (csvHeaders sampleCsv).
            csvHeaders sampleCsv ! j \<noteq> ''__proto__''
            \<and> csvHeaders sampleCsv ! j \<notin> set (drop (Suc j) (csvHeaders sampleCsv))
            \<longrightarrow> (parseCSV sampleCsv ! (i - 1)) (csvHeaders sampleCsv ! j)
                = Some (valAt (csvFields sampleCsv i) j))"
    by simp
  have e: "(parseCSV sampleCsv ! 0) ''event_name'' = Some ''Masters''"
    using rows [of 1, THEN conjunct2, rule_format, of 1]
    by (simp add: csvHeaders_sampleCsv csvFields_sampleCsv valAt_def)
  have s: "(parseCSV sampleCsv ! 1) ''score_to_par'' = Some ''''"
    using rows [of 2, THEN conjunct2, rule_format, of 3]
    by (simp add: csvHeaders_sampleCsv csvFields_sampleCsv valAt_def)
  have d: "dom (parseCSV sampleCsv ! 2)
       = {''player_name'', ''event_name'', ''year'', ''score_to_par'', ''position''}"
    using rows [of 3, THEN conjunct1]
    by (simp add: csvHeaders_sampleCsv)
  have z: "parseCSV '''' = []"
    using parseCSV_records [of "''''"] by (simp add: csvLines_def trim_def)
  from n len e s d z show ?thesis by simp
qed

text \<open>
  Claim C10 as stated fails on a header row that repeats a name: the record holds one
  property for the name, with the field of the last position, so the first position does
  not hold its own field.
\<close>

lemma csvLines_dupHeaderCsv: "csvLines dupHeaderCsv = [''a,a'', ''1,2'']"
  by (simp add: csvLines_def dupHeaderCsv_def trim_def isWhiteSpace_def)

theorem parseCSV_duplicate_header:
  "length (csvLines dupHeaderCsv) = 2
   \<and> csvHeaders dupHeaderCsv = [''a'', ''a'']
   \<and> csvFields dupHeaderCsv 1 = [''1'', ''2'']
   \<and> length (parseCSV dupHeaderCsv) = 1
   \<and> (parseCSV dupHeaderCsv ! 0) ''a'' = Some ''2''
   \<and> \<not> holdsFields (csvHeaders dupHeaderCsv) (csvFields dupHeaderCsv 1) (parseCSV dupHeaderCsv ! 0)"
proof -
  have h: "csvHeaders dupHeaderCsv = [''a'', ''a'']"
    by (simp add: csvHeaders_def csvLines_dupHeaderCsv trim_def isWhiteSpace_def)
  have f: "csvFields dupHeaderCsv (Suc 0) = [''1'', ''2'']"
    by (simp add: csvFields_def csvLines_dupHeaderCsv trim_def isWhiteSpace_def)
  have p: "parseCSV dupHeaderCsv = [makeRow [''a'', ''a''] [''1'', ''2'']]"
    by (simp add: parseCSV_unfold csvLines_dupHeaderCsv h f)
  have r: "makeRow [''a'', ''a''] [''1'', ''2''] ''a'' = Some ''2''"
    by (simp add: makeRow_def setProp_def valAt_def)
  show ?thesis
    by (simp add: csvLines_dupHeaderCsv h f p r holdsFields_def valAt_def)
qed

subsection \<open>The filter of \<^verbatim>\<open>loadData\<close>\<close>













end
